theory Spec2Isabelle
  imports Complex_Main
begin

section \<open>OCI carbon emissions retrieval: the query orchestration of oci_carbon_emissions.py\<close>

text \<open>
  The theory embeds the functions of \<^verbatim>\<open>src/reporting/oci_carbon_emissions.py\<close> that
  normalise dates and group-by fields, page through the usage API, fall back to the
  spend-based calculation, merge the group-by combinations and summarise a dataset.
  Python exceptions are values of \<open>exn\<close>; a function that can raise returns
  \<open>exn + 'a\<close> with \<open>Inl\<close> for the raised exception.
\<close>

subsection \<open>Exceptions\<close>

datatype exn =
    ValueError
  | ApiError string
  | AttributeError
  | UnboundLocalError

subsection \<open>Python's datetime, as far as the date handling uses it\<close>

text \<open>
  \<^verbatim>\<open>datetime.strptime\<close>, \<^verbatim>\<open>datetime.fromisoformat\<close>, \<^verbatim>\<open>replace\<close> and \<^verbatim>\<open>strftime\<close> belong to
  Python's standard library, not to the repository. They are modelled after their
  documentation, over ASCII strings:
  \<^item> the constructor checks year 1..9999, month 1..12, the day against the month's length
    and the time fields, and raises ValueError otherwise;
  \<^item> \<open>strptime_ymd\<close> is \<^verbatim>\<open>strptime(s, "%Y-%m-%d")\<close>: four digits, then a month and a day
    matched by the alternatives \<^verbatim>\<open>1[0-2]|0[1-9]|[1-9]\<close> and
    \<^verbatim>\<open>3[01]|[12]\d|0[1-9]|[1-9]| [1-9]\<close> tried in this order, and nothing after the day;
  \<^item> \<open>fromisoformat\<close> reads \<^verbatim>\<open>YYYY-MM-DD[*HH[:MM[:SS[.fff[fff]]]][+HH:MM[:SS[.ffffff]]]]\<close>,
    the grammar documented for Python 3.7 to 3.10, which later versions extend;
  \<^item> \<^verbatim>\<open>%Y\<close>, \<^verbatim>\<open>%m\<close> and \<^verbatim>\<open>%d\<close> print zero-padded fields of width 4, 2 and 2, as documented.
  The UTC offset is kept in microseconds; it is never converted, as in the source.
\<close>

record datetime =
  year :: int
  month :: int
  day :: int
  hour :: int
  minute :: int
  second :: int
  microsecond :: int
  tzinfo :: "int option"

definition is_digit :: "char \<Rightarrow> bool" where
  "is_digit c = (48 \<le> (of_char c :: nat) \<and> (of_char c :: nat) \<le> 57)"

definition digit_val :: "char \<Rightarrow> nat" where
  "digit_val c = of_char c - 48"

definition digit_char :: "nat \<Rightarrow> char" where
  "digit_char n = ''0123456789'' ! n"

definition int_of_digits :: "string \<Rightarrow> int" where
  "int_of_digits s = int (foldl (\<lambda>n c. 10 * n + digit_val c) 0 s)"

definition is_leap :: "int \<Rightarrow> bool" where
  "is_leap y = (y mod 4 = 0 \<and> (y mod 100 \<noteq> 0 \<or> y mod 400 = 0))"

definition days_in_month :: "int \<Rightarrow> int \<Rightarrow> int" where
  "days_in_month y m =
     (if m = 2 then (if is_leap y then 29 else 28)
      else if m = 4 \<or> m = 6 \<or> m = 9 \<or> m = 11 then 30 else 31)"

definition new_datetime ::
  "int \<Rightarrow> int \<Rightarrow> int \<Rightarrow> int \<Rightarrow> int \<Rightarrow> int \<Rightarrow> int \<Rightarrow> int option \<Rightarrow> exn + datetime" where
  "new_datetime y m d hh mm ss us tz =
     (if 1 \<le> y \<and> y \<le> 9999 \<and> 1 \<le> m \<and> m \<le> 12 \<and> 1 \<le> d \<and> d \<le> days_in_month y m
         \<and> 0 \<le> hh \<and> hh \<le> 23 \<and> 0 \<le> mm \<and> mm \<le> 59 \<and> 0 \<le> ss \<and> ss \<le> 59
         \<and> 0 \<le> us \<and> us \<le> 999999
      then Inr \<lparr>year = y, month = m, day = d, hour = hh, minute = mm, second = ss,
                microsecond = us, tzinfo = tz\<rparr>
      else Inl ValueError)"

definition match_month :: "string \<Rightarrow> (int \<times> string) option" where
  "match_month s =
     (case s of
        a # b # r \<Rightarrow>
          if a = CHR ''1'' \<and> b \<in> set ''012'' then Some (int_of_digits [a, b], r)
          else if a = CHR ''0'' \<and> b \<in> set ''123456789'' then Some (int_of_digits [a, b], r)
          else if a \<in> set ''123456789'' then Some (int_of_digits [a], b # r)
          else None
      | [a] \<Rightarrow> if a \<in> set ''123456789'' then Some (int_of_digits [a], []) else None
      | [] \<Rightarrow> None)"

definition match_day :: "string \<Rightarrow> (int \<times> string) option" where
  "match_day s =
     (case s of
        a # b # r \<Rightarrow>
          if a = CHR ''3'' \<and> b \<in> set ''01'' then Some (int_of_digits [a, b], r)
          else if a \<in> set ''12'' \<and> is_digit b then Some (int_of_digits [a, b], r)
          else if a = CHR ''0'' \<and> b \<in> set ''123456789'' then Some (int_of_digits [a, b], r)
          else if a \<in> set ''123456789'' then Some (int_of_digits [a], b # r)
          else if a = CHR '' '' \<and> b \<in> set ''123456789'' then Some (int_of_digits [b], r)
          else None
      | [a] \<Rightarrow> if a \<in> set ''123456789'' then Some (int_of_digits [a], []) else None
      | [] \<Rightarrow> None)"

definition strptime_ymd :: "string \<Rightarrow> exn + datetime" where
  "strptime_ymd s =
     (if length s \<ge> 5 \<and> list_all is_digit (take 4 s) \<and> s ! 4 = CHR ''-'' then
        (case match_month (drop 5 s) of
           None \<Rightarrow> Inl ValueError
         | Some (m, r) \<Rightarrow>
             (case r of
                [] \<Rightarrow> Inl ValueError
              | c # r' \<Rightarrow>
                  if c \<noteq> CHR ''-'' then Inl ValueError
                  else (case match_day r' of
                          None \<Rightarrow> Inl ValueError
                        | Some (d, rest) \<Rightarrow>
                            if rest \<noteq> [] then Inl ValueError
                            else new_datetime (int_of_digits (take 4 s)) m d 0 0 0 0 None)))
      else Inl ValueError)"

definition two_digits :: "string \<Rightarrow> (int \<times> string) option" where
  "two_digits s =
     (case s of
        a # b # r \<Rightarrow> if is_digit a \<and> is_digit b then Some (int_of_digits [a, b], r) else None
      | _ \<Rightarrow> None)"

definition parse_hh_mm_ss_ff :: "string \<Rightarrow> exn + (int \<times> int \<times> int \<times> int)" where
  "parse_hh_mm_ss_ff tstr =
     (case two_digits tstr of
        None \<Rightarrow> Inl ValueError
      | Some (hh, r1) \<Rightarrow>
          (case r1 of
             [] \<Rightarrow> Inr (hh, 0, 0, 0)
           | c1 # r1' \<Rightarrow>
               if c1 \<noteq> CHR '':'' then Inl ValueError
               else
                 (case two_digits r1' of
                    None \<Rightarrow> Inl ValueError
                  | Some (mm, r2) \<Rightarrow>
                      (case r2 of
                         [] \<Rightarrow> Inr (hh, mm, 0, 0)
                       | c2 # r2' \<Rightarrow>
                           if c2 \<noteq> CHR '':'' then Inl ValueError
                           else
                             (case two_digits r2' of
                                None \<Rightarrow> Inl ValueError
                              | Some (ss, r3) \<Rightarrow>
                                  (case r3 of
                                     [] \<Rightarrow> Inr (hh, mm, ss, 0)
                                   | c3 # f \<Rightarrow>
                                       if c3 \<noteq> CHR ''.'' then Inl ValueError
                                       else if length f = 3 \<and> list_all is_digit f
                                         then Inr (hh, mm, ss, int_of_digits f * 1000)
                                       else if length f = 6 \<and> list_all is_digit f
                                         then Inr (hh, mm, ss, int_of_digits f)
                                       else Inl ValueError))))))"

definition is_sign :: "char \<Rightarrow> bool" where
  "is_sign c = (c = CHR ''+'' \<or> c = CHR ''-'')"

definition parse_isoformat_time :: "string \<Rightarrow> exn + (int \<times> int \<times> int \<times> int \<times> int option)" where
  "parse_isoformat_time tstr =
     (let timestr = takeWhile (\<lambda>c. \<not> is_sign c) tstr;
          tzpart = dropWhile (\<lambda>c. \<not> is_sign c) tstr
      in case parse_hh_mm_ss_ff timestr of
           Inl e \<Rightarrow> Inl e
         | Inr (hh, mm, ss, us) \<Rightarrow>
             (case tzpart of
                [] \<Rightarrow> Inr (hh, mm, ss, us, None)
              | sc # tzstr \<Rightarrow>
                  if length tzstr \<noteq> 5 \<and> length tzstr \<noteq> 8 \<and> length tzstr \<noteq> 15
                  then Inl ValueError
                  else (case parse_hh_mm_ss_ff tzstr of
                          Inl e \<Rightarrow> Inl e
                        | Inr (th, tm, ts, tus) \<Rightarrow>
                            (let off = (if sc = CHR ''-'' then - 1 else 1)
                                        * (((th * 60 + tm) * 60 + ts) * 1000000 + tus)
                             in if - 86400000000 < off \<and> off < 86400000000
                                then Inr (hh, mm, ss, us, Some off)
                                else Inl ValueError))))"

definition parse_isoformat_date :: "string \<Rightarrow> exn + (int \<times> int \<times> int)" where
  "parse_isoformat_date dtstr =
     (if length dtstr = 10
         \<and> list_all is_digit (take 4 dtstr) \<and> dtstr ! 4 = CHR ''-''
         \<and> list_all is_digit (take 2 (drop 5 dtstr)) \<and> dtstr ! 7 = CHR ''-''
         \<and> list_all is_digit (drop 8 dtstr)
      then Inr (int_of_digits (take 4 dtstr), int_of_digits (take 2 (drop 5 dtstr)),
                int_of_digits (drop 8 dtstr))
      else Inl ValueError)"

definition fromisoformat :: "string \<Rightarrow> exn + datetime" where
  "fromisoformat date_string =
     (case parse_isoformat_date (take 10 date_string) of
        Inl e \<Rightarrow> Inl e
      | Inr (y, m, d) \<Rightarrow>
          if length date_string \<le> 10 then new_datetime y m d 0 0 0 0 None
          else (case parse_isoformat_time (drop 11 date_string) of
                  Inl e \<Rightarrow> Inl e
                | Inr (hh, mm, ss, us, tz) \<Rightarrow> new_datetime y m d hh mm ss us tz))"

definition pad2 :: "int \<Rightarrow> string" where
  "pad2 n = [digit_char (nat n div 10 mod 10), digit_char (nat n mod 10)]"

definition pad4 :: "int \<Rightarrow> string" where
  "pad4 n = [digit_char (nat n div 1000 mod 10), digit_char (nat n div 100 mod 10),
             digit_char (nat n div 10 mod 10), digit_char (nat n mod 10)]"

subsection \<open>DateNormalizer: _parse_and_validate_datetime (lines 139-165)\<close>

text \<open>
  \<open>str_replace_Z\<close> is \<^verbatim>\<open>date_str.replace('Z', '+00:00')\<close>, which replaces every Z. The
  format string of the source is \<^verbatim>\<open>"%Y-%m-%dT00:00:00Z"\<close>: the time part of the result
  is literal text. The handler of ValueError prints and re-raises.
\<close>

definition str_replace_Z :: "string \<Rightarrow> string" where
  "str_replace_Z s = concat (map (\<lambda>c. if c = CHR ''Z'' then ''+00:00'' else [c]) s)"

definition strftime_month_start :: "datetime \<Rightarrow> string" where
  "strftime_month_start dt =
     pad4 (year dt) @ ''-'' @ pad2 (month dt) @ ''-'' @ pad2 (day dt) @ ''T00:00:00Z''"

definition parse_and_validate_datetime :: "string \<Rightarrow> exn + string" where
  "parse_and_validate_datetime date_str =
     (case (if CHR ''T'' \<in> set date_str then fromisoformat (str_replace_Z date_str)
            else strptime_ymd date_str) of
        Inl e \<Rightarrow> Inl e
      | Inr dt \<Rightarrow>
          Inr (strftime_month_start
                 (dt\<lparr>day := 1, hour := 0, minute := 0, second := 0, microsecond := 0\<rparr>)))"



subsection \<open>GroupByValidator: validate_group_by_fields (lines 601-645)\<close>

definition power_based_supported :: "string list" where
  "power_based_supported =
     [''service'', ''compartmentName'', ''compartmentId'', ''region'',
      ''tenantId'', ''tenantName'', ''subscriptionId'']"

definition spend_based_supported :: "string list" where
  "spend_based_supported =
     [''service'', ''compartmentName'', ''compartmentId'', ''region'',
      ''tenantId'', ''tenantName'', ''subscriptionId'', ''platform'',
      ''resourceId'', ''resourceName'', ''skuName'', ''skuPartNumber'']"

text \<open>
  The source picks the table by comparing the method with \<^verbatim>\<open>'POWER_BASED'\<close>; every other
  string takes the spend-based branch. The warnings it prints are not modelled.
\<close>

definition supported_fields :: "string \<Rightarrow> string list" where
  "supported_fields calculation_method =
     (if calculation_method = ''POWER_BASED'' then power_based_supported
      else spend_based_supported)"

definition validate_group_by_fields :: "string list \<Rightarrow> string \<Rightarrow> string list" where
  "validate_group_by_fields group_by calculation_method =
     (let valid_fields =
            (if calculation_method = ''POWER_BASED''
             then filter (\<lambda>field. field \<in> set power_based_supported) group_by
             else filter (\<lambda>field. field \<in> set spend_based_supported) group_by);
          valid_fields = (if valid_fields = [] then [''service''] else valid_fields);
          valid_fields = (if length valid_fields > 4 then take 4 valid_fields else valid_fields)
      in valid_fields)"

subsection \<open>DateNormalizer: calculate_first_day_date_range (lines 647-688)\<close>

text \<open>
  The source reads the clock with \<^verbatim>\<open>datetime.now()\<close>; here \<open>today\<close> is a parameter.
  \<open>replace_date\<close> is \<^verbatim>\<open>dt.replace(year=.., month=.., day=..)\<close>, which validates the new
  date. A period type other than the two known ones leaves \<^verbatim>\<open>start_date\<close> unbound and the
  return statement raises UnboundLocalError.
\<close>

definition replace_date :: "datetime \<Rightarrow> int \<Rightarrow> int \<Rightarrow> int \<Rightarrow> exn + datetime" where
  "replace_date dt y m d =
     new_datetime y m d (hour dt) (minute dt) (second dt) (microsecond dt) (tzinfo dt)"

definition strftime_ymd :: "datetime \<Rightarrow> string" where
  "strftime_ymd dt = pad4 (year dt) @ ''-'' @ pad2 (month dt) @ ''-'' @ pad2 (day dt)"

definition calculate_first_day_date_range :: "datetime \<Rightarrow> string \<Rightarrow> exn + (string \<times> string)" where
  "calculate_first_day_date_range today period_type =
     (if period_type = ''last_month'' then
        (case replace_date today (year today) (month today) 1 of
           Inl e \<Rightarrow> Inl e
         | Inr current_month_start \<Rightarrow>
             (case (if month current_month_start = 1
                    then replace_date current_month_start (year current_month_start - 1) 12
                           (day current_month_start)
                    else replace_date current_month_start (year current_month_start)
                           (month current_month_start - 1) (day current_month_start)) of
                Inl e \<Rightarrow> Inl e
              | Inr start_date \<Rightarrow>
                  Inr (strftime_ymd start_date, strftime_ymd current_month_start)))
      else if period_type = ''last_3_months'' then
        (case replace_date today (year today) (month today) 1 of
           Inl e \<Rightarrow> Inl e
         | Inr current_month_start \<Rightarrow>
             (let y0 = year current_month_start;
                  m0 = month current_month_start - 3;
                  m1 = (if m0 \<le> 0 then m0 + 12 else m0);
                  y1 = (if m0 \<le> 0 then y0 - 1 else y0)
              in case new_datetime y1 m1 1 0 0 0 0 None of
                   Inl e \<Rightarrow> Inl e
                 | Inr start_date \<Rightarrow>
                     Inr (strftime_ymd start_date, strftime_ymd current_month_start)))
      else Inl UnboundLocalError)"

text \<open>
  What the specification means by "n calendar months earlier": months are counted on one
  axis, twelve to a year. This definition is written from the specification's words and
  is what the source's case analysis is compared with.
\<close>

definition months_earlier :: "int \<Rightarrow> int \<times> int \<Rightarrow> int \<times> int" where
  "months_earlier n ym =
     (let t = 12 * fst ym + (snd ym - 1) - n in (t div 12, t mod 12 + 1))"

text \<open>The date string \<^verbatim>\<open>YYYY-MM-01\<close> of the first day of a month.\<close>

definition first_day_string :: "int \<times> int \<Rightarrow> string" where
  "first_day_string ym = pad4 (fst ym) @ ''-'' @ pad2 (snd ym) @ ''-01''"

definition valid_datetime :: "datetime \<Rightarrow> bool" where
  "valid_datetime dt =
     (new_datetime (year dt) (month dt) (day dt) (hour dt) (minute dt) (second dt)
        (microsecond dt) (tzinfo dt) = Inr dt)"

subsection \<open>The usage API: records, pages and requests\<close>

text \<open>
  An \<open>item\<close> is one usage record of the response, with the attributes the orchestration
  reads; \<open>page\<close> is \<^verbatim>\<open>response.data\<close>: the records and the continuation token that the
  source reads with \<^verbatim>\<open>getattr(data, 'opc_next_page', None)\<close>. Emission values are Python
  floats; they are modelled as real numbers, so rounding is not part of the model.
\<close>

record item =
  service :: "string option"
  computed_carbon_emission :: "real option"
  compartment_name :: "string option"
  compartment_id :: "string option"

record page =
  items :: "item list"
  opc_next_page :: "string option"

record request =
  req_time_usage_started :: string
  req_time_usage_ended :: string
  req_emission_type :: string
  req_emission_calculation_method :: string
  req_granularity :: string
  req_group_by :: "string list"
  req_filter :: "(string \<times> string list) list option"
  req_compartment_depth :: "int option"
  req_is_aggregate_by_time :: bool
  req_limit :: "int option"

text \<open>\<^verbatim>\<open>float(item.computed_carbon_emission or 0)\<close>: an absent value counts as 0.\<close>

definition emission_of :: "item \<Rightarrow> real" where
  "emission_of it = (case computed_carbon_emission it of None \<Rightarrow> 0 | Some x \<Rightarrow> x)"

text \<open>\<^verbatim>\<open>d[k] = v\<close> on a dictionary kept as an association list in insertion order.\<close>

fun dict_set :: "'k \<Rightarrow> 'v \<Rightarrow> ('k \<times> 'v) list \<Rightarrow> ('k \<times> 'v) list" where
  "dict_set k v [] = [(k, v)]"
| "dict_set k v ((k', v') # d) = (if k' = k then (k, v) # d else (k', v') # dict_set k v d)"

subsection \<open>EmissionsQueryClient: get_carbon_emissions (lines 55-137)\<close>

text \<open>
  \<open>usage_client\<close> stands for \<^verbatim>\<open>self.usage_client.request_usage_carbon_emissions\<close>: it maps
  the request to the page it returns or to the exception it raises. Both dates are
  normalised before the request is built, so a bad date raises before any call. The
  handler at line 135 prints and re-raises.
\<close>

definition get_carbon_emissions ::
  "(request \<Rightarrow> exn + page) \<Rightarrow> string \<Rightarrow> string \<Rightarrow> string \<Rightarrow> string \<Rightarrow> string
     \<Rightarrow> string list option \<Rightarrow> (string \<times> string list) list option \<Rightarrow> int option \<Rightarrow> bool
     \<Rightarrow> int option \<Rightarrow> string list option \<Rightarrow> exn + page" where
  "get_carbon_emissions usage_client start_date end_date emission_type calculation_method
       granularity group_by filters compartment_depth is_aggregate_by_time limit compartment_ids =
     (case parse_and_validate_datetime start_date of
        Inl e \<Rightarrow> Inl e
      | Inr start_datetime \<Rightarrow>
          (case parse_and_validate_datetime end_date of
             Inl e \<Rightarrow> Inl e
           | Inr end_datetime \<Rightarrow>
               (let group_by1 = (case group_by of None \<Rightarrow> [''service''] | Some g \<Rightarrow> g);
                    filters1 =
                      (case compartment_ids of
                         None \<Rightarrow> filters
                       | Some ids \<Rightarrow>
                           if ids = [] then filters
                           else Some (dict_set ''compartmentId'' ids
                                        (case filters of None \<Rightarrow> [] | Some f \<Rightarrow> f)));
                    limit1 =
                      (case limit of
                         None \<Rightarrow> None
                       | Some l \<Rightarrow> if l > 500 then Some 500 else if l \<le> 0 then None else Some l)
                in usage_client
                     \<lparr>req_time_usage_started = start_datetime,
                      req_time_usage_ended = end_datetime,
                      req_emission_type = emission_type,
                      req_emission_calculation_method = calculation_method,
                      req_granularity = granularity,
                      req_group_by = group_by1,
                      req_filter = filters1,
                      req_compartment_depth = compartment_depth,
                      req_is_aggregate_by_time = is_aggregate_by_time,
                      req_limit = limit1\<rparr>)))"

subsection \<open>PaginationDriver: get_full_dataset_paginated (lines 475-576)\<close>

text \<open>
  The loop calls \<^verbatim>\<open>self.get_carbon_emissions\<close> with the same arguments on every iteration:
  \<^verbatim>\<open>page_token\<close> is read from the page and tested, and never passed on. What changes from
  call to call is the service, so the loop is given \<open>fetch\<close>, where \<open>fetch k\<close> is the
  outcome of the k-th call (k = 1, 2, ...): the page returned or the exception raised.

  \<open>loop_state\<close> holds the local variables of the loop. \<open>while_loop\<close> returns the state
  at the moment the loop is left, with the exception if one left it.
\<close>

record loop_state =
  all_items :: "item list"
  page_count :: nat
  total_records :: nat

text \<open>\<^verbatim>\<open>xs[:m]\<close> for a Python integer m: a negative m counts from the end.\<close>

definition py_slice_to :: "'a list \<Rightarrow> int \<Rightarrow> 'a list" where
  "py_slice_to xs m = (if 0 \<le> m then take (nat m) xs else take (length xs - nat (- m)) xs)"

text \<open>\<^verbatim>\<open>if not page_token\<close>: an absent token and the empty string both end the loop.\<close>

definition no_more_pages :: "page \<Rightarrow> bool" where
  "no_more_pages data = (case opc_next_page data of None \<Rightarrow> True | Some t \<Rightarrow> t = [])"

text \<open>
  \<^verbatim>\<open>max_records and total_records >= max_records\<close>, evaluated only for a page that has
  records: None and 0 are both false.
\<close>

definition limit_hit :: "int option \<Rightarrow> nat \<Rightarrow> bool" where
  "limit_hit max_records n =
     (case max_records of None \<Rightarrow> False | Some m \<Rightarrow> m \<noteq> 0 \<and> m \<le> int n)"

function while_loop :: "(nat \<Rightarrow> exn + page) \<Rightarrow> int option \<Rightarrow> loop_state \<Rightarrow> exn option \<times> loop_state" where
  "while_loop fetch max_records st =
     (case fetch (page_count st + 1) of
        Inl e \<Rightarrow> (Some e, st\<lparr>page_count := page_count st + 1\<rparr>)
      | Inr data \<Rightarrow>
          if items data \<noteq> [] \<and> limit_hit max_records (total_records st + length (items data))
          then (None, \<lparr>all_items = py_slice_to (all_items st @ items data) (the max_records),
                       page_count = page_count st + 1,
                       total_records = total_records st + length (items data)\<rparr>)
          else if no_more_pages data
          then (None, \<lparr>all_items = all_items st @ items data,
                       page_count = page_count st + 1,
                       total_records = total_records st + length (items data)\<rparr>)
          else if page_count st + 1 \<ge> 1000
          then (None, \<lparr>all_items = all_items st @ items data,
                       page_count = page_count st + 1,
                       total_records = total_records st + length (items data)\<rparr>)
          else while_loop fetch max_records
                 \<lparr>all_items = all_items st @ items data,
                  page_count = page_count st + 1,
                  total_records = total_records st + length (items data)\<rparr>)"
  by pat_completeness auto
termination
  by (relation "measure (\<lambda>(fetch, max_records, st). 1000 - page_count st)") auto

declare while_loop.simps [simp del]

text \<open>
  The body of the function from line 507 on. \<^verbatim>\<open>CombinedResult\<close> is a local name of the
  function, bound by the class statement at line 562, which runs only after the loop has
  ended without an exception. The handler at line 570 catches every exception of the
  loop; there the class statement has not run, so \<^verbatim>\<open>return CombinedResult(all_items)\<close> at
  line 574 reads an unbound local and raises UnboundLocalError. With no records
  accumulated the handler re-raises the exception it caught.
\<close>

definition paginate :: "(nat \<Rightarrow> exn + page) \<Rightarrow> int option \<Rightarrow> exn + page" where
  "paginate fetch max_records =
     (case while_loop fetch max_records \<lparr>all_items = [], page_count = 0, total_records = 0\<rparr> of
        (None, st) \<Rightarrow> Inr \<lparr>items = all_items st, opc_next_page = None\<rparr>
      | (Some e, st) \<Rightarrow> if all_items st \<noteq> [] then Inl UnboundLocalError else Inl e)"

text \<open>The number of calls of \<^verbatim>\<open>get_carbon_emissions\<close> the loop has made when it is left.\<close>

definition pages_requested :: "(nat \<Rightarrow> exn + page) \<Rightarrow> int option \<Rightarrow> nat" where
  "pages_requested fetch max_records =
     page_count (snd (while_loop fetch max_records
                        \<lparr>all_items = [], page_count = 0, total_records = 0\<rparr>))"

text \<open>
  The function itself: \<open>api k\<close> is the behaviour of the service at the k-th call. Every
  call asks for 500 records, without time aggregation.
\<close>

definition get_full_dataset_paginated ::
  "(nat \<Rightarrow> request \<Rightarrow> exn + page) \<Rightarrow> string \<Rightarrow> string \<Rightarrow> string \<Rightarrow> string \<Rightarrow> string
     \<Rightarrow> string list option \<Rightarrow> int \<Rightarrow> int option \<Rightarrow> exn + page" where
  "get_full_dataset_paginated api start_date end_date emission_type calculation_method
       granularity group_by compartment_depth max_records =
     (let group_by1 =
            (case group_by of
               None \<Rightarrow> [''service'', ''compartmentName'', ''compartmentId'', ''region'',
                         ''platform'', ''tenantId'', ''subscriptionId'']
             | Some g \<Rightarrow> g)
      in paginate
           (\<lambda>k. get_carbon_emissions (api k) start_date end_date emission_type
                   calculation_method granularity (Some group_by1) None
                   (Some compartment_depth) False (Some 500) None)
           max_records)"

subsection \<open>PaginationDriver: the pages a client serves, and when the loop is to stop\<close>

text \<open>
  The following definitions state the properties of the loop; they are not part of the
  source. For a client that serves page \<open>pg k\<close> at the k-th call, \<open>records_upto pg n\<close> are
  the records of the first n pages in arrival order. \<open>stops_at\<close> is the stopping rule in
  the specification's words: the page has no continuation token, or the accumulated
  number of records has reached \<open>max_records\<close>, or 1000 pages have been requested.
  \<open>truncated\<close> cuts a dataset to \<open>max_records\<close> records, and \<open>positive_limit\<close> says that
  \<open>max_records\<close> is absent or a positive number of records.
\<close>

definition records_upto :: "(nat \<Rightarrow> page) \<Rightarrow> nat \<Rightarrow> item list" where
  "records_upto pg n = concat (map (\<lambda>k. items (pg k)) [1..<Suc n])"

definition limit_reached :: "(nat \<Rightarrow> page) \<Rightarrow> int option \<Rightarrow> nat \<Rightarrow> bool" where
  "limit_reached pg max_records k =
     (case max_records of None \<Rightarrow> False | Some m \<Rightarrow> m \<le> int (length (records_upto pg k)))"

definition stops_at :: "(nat \<Rightarrow> page) \<Rightarrow> int option \<Rightarrow> nat \<Rightarrow> bool" where
  "stops_at pg max_records k =
     (no_more_pages (pg k) \<or> limit_reached pg max_records k \<or> 1000 \<le> k)"

definition truncated :: "int option \<Rightarrow> item list \<Rightarrow> item list" where
  "truncated max_records xs = (case max_records of None \<Rightarrow> xs | Some m \<Rightarrow> take (nat m) xs)"

definition positive_limit :: "int option \<Rightarrow> bool" where
  "positive_limit max_records = (case max_records of None \<Rightarrow> True | Some m \<Rightarrow> 0 < m)"

text \<open>
  Test clients: \<open>serve ps\<close> returns the pages of \<open>ps\<close> one per call, whatever the request;
  \<open>serve_then_raise ps e\<close> does the same and raises \<open>e\<close> at every later call.
\<close>

definition serve :: "page list \<Rightarrow> nat \<Rightarrow> exn + page" where
  "serve ps k = (if 1 \<le> k \<and> k \<le> length ps then Inr (ps ! (k - 1))
                 else Inl (ApiError ''no page left''))"

definition serve_then_raise :: "page list \<Rightarrow> exn \<Rightarrow> nat \<Rightarrow> exn + page" where
  "serve_then_raise ps e k = (if 1 \<le> k \<and> k \<le> length ps then Inr (ps ! (k - 1)) else Inl e)"

definition sample_item :: "string \<Rightarrow> item" where
  "sample_item s = \<lparr>service = Some s, computed_carbon_emission = Some 1,
                    compartment_name = None, compartment_id = None\<rparr>"

definition sample_page :: "nat \<Rightarrow> string \<Rightarrow> string option \<Rightarrow> page" where
  "sample_page n s token = \<lparr>items = replicate n (sample_item s), opc_next_page = token\<rparr>"

text \<open>
  A service that follows continuation tokens answers by the token it is sent: \<open>server t\<close>
  is its answer to a request carrying the token \<open>t\<close>, and \<open>server None\<close> its answer to a
  request carrying none, the first page. The call at lines 128-131 passes the request
  details and \<^verbatim>\<open>limit\<close> and nothing else, and \<^verbatim>\<open>page_token\<close> occurs nowhere in the source
  but at lines 508, 549 and 550, so every request of the loop reaches such a service
  without a token: \<open>token_client server\<close> is the \<open>usage_client\<close> that the code sees.
  \<open>three_page_server\<close> is the service of the specification's example: pages of 500, 500
  and 200 records, chained by their tokens.
\<close>

definition token_client :: "(string option \<Rightarrow> exn + page) \<Rightarrow> request \<Rightarrow> exn + page" where
  "token_client server request_details = server None"

definition three_page_server :: "string option \<Rightarrow> exn + page" where
  "three_page_server token =
     (if token = None then Inr (sample_page 500 ''compute'' (Some ''page-2''))
      else if token = Some ''page-2'' then Inr (sample_page 500 ''storage'' (Some ''page-3''))
      else if token = Some ''page-3'' then Inr (sample_page 200 ''network'' None)
      else Inl (ApiError ''invalid page token''))"

subsection \<open>FallbackStrategy and MultiQueryAggregator: the multi-query branch of main (lines 938-1036)\<close>

text \<open>
  An attempt is the pair (emission type, calculation method) of one call of
  \<^verbatim>\<open>retriever.get_carbon_emissions\<close>; the other arguments of the two calls of a combination
  are the same. \<open>call a\<close> is the outcome of the call made with attempt \<open>a\<close>.
\<close>

type_synonym attempt = "string \<times> string"

definition primary_attempt :: attempt where
  "primary_attempt = (''LOCATION_BASED'', ''POWER_BASED'')"

definition alternate_attempt :: attempt where
  "alternate_attempt = (''MARKET_BASED'', ''SPEND_BASED'')"

text \<open>Line 979: the page has records and one of them has an emission above zero.\<close>

definition found_emissions :: "page \<Rightarrow> bool" where
  "found_emissions data =
     (items data \<noteq> [] \<and> list_ex (\<lambda>it. emission_of it > 0) (items data))"

text \<open>
  Lines 965-1006: the two inner try blocks. The local \<^verbatim>\<open>data\<close> is None or a page. Both
  handlers print the exception and go on; the second leaves \<^verbatim>\<open>data\<close> as it is. The
  result is \<^verbatim>\<open>data\<close> and the attempts made, in order.
\<close>

definition fetch_with_fallback :: "(attempt \<Rightarrow> exn + page) \<Rightarrow> page option \<times> attempt list" where
  "fetch_with_fallback call =
     (let data = (case call primary_attempt of
                    Inl e \<Rightarrow> None
                  | Inr d \<Rightarrow> if found_emissions d then Some d else None)
      in if (case data of None \<Rightarrow> True | Some d \<Rightarrow> items d = [])
         then (case call alternate_attempt of
                 Inl e \<Rightarrow> (data, [primary_attempt, alternate_attempt])
               | Inr d \<Rightarrow> (Some d, [primary_attempt, alternate_attempt]))
         else (data, [primary_attempt]))"

text \<open>
  Lines 963-1020, the body of the outer try for one combination: after the two attempts,
  \<^verbatim>\<open>data.items\<close> is read. On None this raises AttributeError. A page with records is saved
  when an output file was asked for (line 1016; \<open>save\<close> is the outcome of
  \<^verbatim>\<open>retriever.save_to_csv\<close>, None when it returns and the exception when it raises) and its
  records are appended to \<^verbatim>\<open>all_data\<close>.
\<close>

definition combination_try ::
  "(attempt \<Rightarrow> exn + page) \<Rightarrow> (page \<Rightarrow> exn option) \<Rightarrow> bool \<Rightarrow> item list \<Rightarrow> exn + item list" where
  "combination_try call save has_output all_data =
     (case fst (fetch_with_fallback call) of
        None \<Rightarrow> Inl AttributeError
      | Some d \<Rightarrow>
          if items d \<noteq> [] then
            (case (if has_output then save d else None) of
               Some e \<Rightarrow> Inl e
             | None \<Rightarrow> Inr (all_data @ items d))
          else Inr all_data)"

text \<open>
  One iteration of the loop at line 960, with the handler at line 1022 that prints the
  exception and continues. The state is \<^verbatim>\<open>all_data\<close> and, for the properties below, the log
  of the calls made: the group-by fields and the attempt of each.
\<close>

definition run_combination ::
  "(string list \<Rightarrow> attempt \<Rightarrow> exn + page) \<Rightarrow> (string \<Rightarrow> page \<Rightarrow> exn option) \<Rightarrow> bool
     \<Rightarrow> item list \<times> (string list \<times> attempt) list \<Rightarrow> string list \<times> string
     \<Rightarrow> item list \<times> (string list \<times> attempt) list" where
  "run_combination retrieve save has_output acc combination =
     (let group_by_fields = fst combination; suffix = snd combination;
          all_data = fst acc; calls = snd acc
      in (case combination_try (retrieve group_by_fields) (save suffix) has_output all_data of
            Inl e \<Rightarrow> all_data
          | Inr all_data1 \<Rightarrow> all_data1,
          calls @ map (\<lambda>a. (group_by_fields, a))
                    (snd (fetch_with_fallback (retrieve group_by_fields)))))"

definition query_combinations :: "bool \<Rightarrow> (string list \<times> string) list" where
  "query_combinations full_dataset_spend_based =
     (if full_dataset_spend_based then
        [([''service'', ''compartmentName'', ''resourceId'', ''skuName''],
          ''spend_based_service_compartment_resource_sku''),
         ([''service'', ''compartmentName'', ''platform'', ''region''],
          ''spend_based_service_compartment_platform_region''),
         ([''compartmentName'', ''resourceId'', ''skuName'', ''region''],
          ''spend_based_compartment_resource_sku_region''),
         ([''service'', ''skuName'', ''platform''], ''spend_based_service_sku_platform'')]
      else
        [([''service'', ''compartmentName'', ''region''], ''power_based_service_compartment_region''),
         ([''service'', ''compartmentName'', ''tenantId''], ''power_based_service_compartment_tenant''),
         ([''service'', ''region'', ''subscriptionId''], ''power_based_service_region_subscription''),
         ([''service'', ''compartmentName''], ''power_based_service_compartment'')])"

text \<open>\<^verbatim>\<open>if args.output\<close>: an output name was given and is not empty.\<close>

definition output_requested :: "string option \<Rightarrow> bool" where
  "output_requested output = (case output of None \<Rightarrow> False | Some name \<Rightarrow> name \<noteq> [])"

text \<open>
  Lines 959-1036. With records in \<^verbatim>\<open>all_data\<close> the branch builds the combined result;
  otherwise it prints "No data retrieved from any query" and main returns: None here.
  The second component is the log of the calls.
\<close>

definition multi_query_dataset ::
  "(string list \<Rightarrow> attempt \<Rightarrow> exn + page) \<Rightarrow> (string \<Rightarrow> page \<Rightarrow> exn option) \<Rightarrow> string option
     \<Rightarrow> bool \<Rightarrow> page option \<times> (string list \<times> attempt) list" where
  "multi_query_dataset retrieve save output full_dataset_spend_based =
     (let final = foldl (run_combination retrieve save (output_requested output)) ([], [])
                    (query_combinations full_dataset_spend_based)
      in (if fst final \<noteq> [] then Some \<lparr>items = fst final, opc_next_page = None\<rparr> else None,
          snd final))"

text \<open>
  The calls of the branch, lines 970-978 and 992-1000: \<open>retrieve\<close> above is this function
  for the service \<open>usage_client\<close> and the dates and granularity of the command line.
\<close>

definition retrieve_combination ::
  "(request \<Rightarrow> exn + page) \<Rightarrow> string \<Rightarrow> string \<Rightarrow> string \<Rightarrow> string list \<Rightarrow> attempt \<Rightarrow> exn + page" where
  "retrieve_combination usage_client start_date_str end_date_str granularity group_by_fields a =
     get_carbon_emissions usage_client start_date_str end_date_str (fst a) (snd a) granularity
       (Some group_by_fields) None (Some 7) False None None"

subsection \<open>FallbackStrategy and MultiQueryAggregator: notions of the specification and test clients\<close>

text \<open>
  These definitions state the properties; they are not part of the source.
  \<open>spec_no_data\<close> is the specification's "no data": the item list is empty or every
  record's emission value is exactly zero. \<open>contribution\<close> is what one combination adds
  to the combined dataset: the records its body appends, or nothing when the body raises.
  The remaining definitions are clients for the examples: one that raises at every call,
  one whose alternate attempt returns a zero-emission record, one whose alternate attempt
  returns no record, one whose alternate attempt returns two zero-emission records, and
  one that rejects the first group-by combination.
\<close>

definition spec_no_data :: "page \<Rightarrow> bool" where
  "spec_no_data data = (items data = [] \<or> list_all (\<lambda>it. emission_of it = 0) (items data))"

definition contribution ::
  "(string list \<Rightarrow> attempt \<Rightarrow> exn + page) \<Rightarrow> (string \<Rightarrow> page \<Rightarrow> exn option) \<Rightarrow> bool
     \<Rightarrow> string list \<times> string \<Rightarrow> item list" where
  "contribution retrieve save has_output combination =
     (case combination_try (retrieve (fst combination)) (save (snd combination)) has_output [] of
        Inl e \<Rightarrow> []
      | Inr records \<Rightarrow> records)"

definition zero_item :: item where
  "zero_item = \<lparr>service = Some ''compute'', computed_carbon_emission = Some 0,
                 compartment_name = None, compartment_id = None\<rparr>"

definition raising_call :: "attempt \<Rightarrow> exn + page" where
  "raising_call a = Inl (ApiError (fst a))"

definition zero_call :: "attempt \<Rightarrow> exn + page" where
  "zero_call a = (if a = primary_attempt then Inr \<lparr>items = [], opc_next_page = None\<rparr>
                  else Inr \<lparr>items = [zero_item], opc_next_page = None\<rparr>)"

definition empty_call :: "attempt \<Rightarrow> exn + page" where
  "empty_call a = (if a = primary_attempt then Inr \<lparr>items = [zero_item], opc_next_page = None\<rparr>
                   else Inr \<lparr>items = [], opc_next_page = None\<rparr>)"

definition zero_pair_call :: "attempt \<Rightarrow> exn + page" where
  "zero_pair_call a =
     (if a = primary_attempt then Inr \<lparr>items = [zero_item], opc_next_page = None\<rparr>
      else Inr \<lparr>items = [zero_item\<lparr>service := Some ''storage''\<rparr>, zero_item],
                opc_next_page = None\<rparr>)"

definition partly_failing :: "string list \<Rightarrow> attempt \<Rightarrow> exn + page" where
  "partly_failing group_by_fields a =
     (if group_by_fields = [''service'', ''compartmentName'', ''region'']
      then Inl (ApiError ''unsupported groupBy field'')
      else Inr \<lparr>items = [\<lparr>service = Some (concat group_by_fields),
                             computed_carbon_emission = Some 2,
                             compartment_name = None, compartment_id = None\<rparr>],
                opc_next_page = None\<rparr>)"

subsection \<open>ReportAggregator: print_summary (lines 307-400)\<close>

text \<open>
  The two dictionaries keep their keys in insertion order, so they are association
  lists. \<open>dict_add\<close> is the source's \<^verbatim>\<open>if k in d: d[k] += v else: d[k] = v\<close>. The report holds
  the numbers that the source formats and prints; truncating a name to 25 or 35
  characters and rounding to 6 or 1 decimals happen in the format strings only.
\<close>

fun dict_add :: "string \<Rightarrow> real \<Rightarrow> (string \<times> real) list \<Rightarrow> (string \<times> real) list" where
  "dict_add k v [] = [(k, v)]"
| "dict_add k v ((k', v') # d) =
     (if k' = k then (k', v' + v) # d else (k', v') # dict_add k v d)"

definition service_key :: "item \<Rightarrow> string" where
  "service_key it = (case service it of None \<Rightarrow> ''Unknown'' | Some s \<Rightarrow> s)"

text \<open>\<^verbatim>\<open>compartment_name or compartment_id or "Root/Tenancy"\<close>: None and the empty string are false.\<close>

definition compartment_key :: "item \<Rightarrow> string" where
  "compartment_key it =
     (case compartment_name it of
        Some n \<Rightarrow> if n \<noteq> [] then n
                  else (case compartment_id it of
                          Some i \<Rightarrow> if i \<noteq> [] then i else ''Root/Tenancy''
                        | None \<Rightarrow> ''Root/Tenancy'')
      | None \<Rightarrow> (case compartment_id it of
                   Some i \<Rightarrow> if i \<noteq> [] then i else ''Root/Tenancy''
                 | None \<Rightarrow> ''Root/Tenancy''))"

record totals =
  total_emissions :: real
  service_emissions :: "(string \<times> real) list"
  compartment_emissions :: "(string \<times> real) list"

definition add_item :: "bool \<Rightarrow> totals \<Rightarrow> item \<Rightarrow> totals" where
  "add_item group_by_compartments t it =
     (let emissions = emission_of it
      in \<lparr>total_emissions = total_emissions t + emissions,
          service_emissions = dict_add (service_key it) emissions (service_emissions t),
          compartment_emissions =
            (if group_by_compartments
             then dict_add (compartment_key it) emissions (compartment_emissions t)
             else compartment_emissions t)\<rparr>)"






subsection \<open>ReportAggregator: notions of the specification\<close>






section \<open>Properties\<close>

subsection \<open>DateNormalizer: digits and padding\<close>


































lemma normalize_date_only_example:
  "parse_and_validate_datetime ''2024-03-15'' = Inr ''2024-03-01T00:00:00Z''"
  by (simp add: parse_and_validate_datetime_def strptime_ymd_def match_month_def match_day_def
      is_digit_def int_of_digits_def digit_val_def new_datetime_def days_in_month_def is_leap_def
      strftime_month_start_def pad2_def pad4_def digit_char_def)



subsection \<open>GroupByValidator\<close>

lemma validate_group_by_fields_eq:
  "validate_group_by_fields g m =
     (let v = filter (\<lambda>f. f \<in> set (supported_fields m)) g
      in take 4 (if v = [] then [''service''] else v))"
  by (simp add: validate_group_by_fields_def supported_fields_def Let_def)

text \<open>
  Claim C8. For every requested field list and calculation method,
  \<open>validate_group_by_fields\<close> keeps exactly the fields of the method's capability table,
  in their original order, substitutes \<open>[service]\<close> when none is left, and returns the
  first four of them. On \<open>[platform, service, foo]\<close> under POWER_BASED the result is
  \<open>[service]\<close>, and five supported fields under SPEND_BASED give the first four of them
  in their original order.
\<close>

theorem C8_validate_group_by_fields:
  "validate_group_by_fields g m =
     take 4 (if filter (\<lambda>f. f \<in> set (supported_fields m)) g = [] then [''service'']
             else filter (\<lambda>f. f \<in> set (supported_fields m)) g)
   \<and> length (validate_group_by_fields g m) \<le> 4
   \<and> validate_group_by_fields g m \<noteq> []
   \<and> set (validate_group_by_fields g m) \<subseteq> set (supported_fields m)
   \<and> validate_group_by_fields [''platform'', ''service'', ''foo''] ''POWER_BASED'' = [''service'']
   \<and> (length g = 5 \<and> set g \<subseteq> set spend_based_supported
        \<longrightarrow> validate_group_by_fields g ''SPEND_BASED'' = take 4 g)"
proof -
  let ?v = "filter (\<lambda>f. f \<in> set (supported_fields m)) g"
  have eq: "validate_group_by_fields g m = take 4 (if ?v = [] then [''service''] else ?v)"
    by (simp add: validate_group_by_fields_eq Let_def)
  have len: "length (validate_group_by_fields g m) \<le> 4"
    by (simp add: eq)
  have ne: "validate_group_by_fields g m \<noteq> []"
    by (simp add: eq)
  have service: "''service'' \<in> set (supported_fields m)"
    by (simp add: supported_fields_def power_based_supported_def spend_based_supported_def)
  have sub: "set (validate_group_by_fields g m) \<subseteq> set (supported_fields m)"
  proof (cases "?v = []")
    case True
    then show ?thesis using service by (simp add: eq)
  next
    case False
    have "set (take 4 ?v) \<subseteq> set ?v" by (rule set_take_subset)
    then show ?thesis using False by (auto simp: eq)
  qed
  have ex1: "validate_group_by_fields [''platform'', ''service'', ''foo''] ''POWER_BASED''
               = [''service'']"
    by (simp add: validate_group_by_fields_def power_based_supported_def)
  have ex2: "length g = 5 \<and> set g \<subseteq> set spend_based_supported
        \<longrightarrow> validate_group_by_fields g ''SPEND_BASED'' = take 4 g"
  proof
    assume a: "length g = 5 \<and> set g \<subseteq> set spend_based_supported"
    then have all: "filter (\<lambda>f. f \<in> set spend_based_supported) g = g"
      by (auto simp: filter_id_conv)
    from a have "g \<noteq> []" by auto
    then show "validate_group_by_fields g ''SPEND_BASED'' = take 4 g"
      using all a by (simp add: validate_group_by_fields_def)
  qed
  show ?thesis using eq len ne sub ex1 ex2 by blast
qed

theorem C8_validate_group_by_fields_witness:
  "length [''service'', ''region'', ''platform'', ''skuName'', ''resourceId''] = 5
   \<and> set [''service'', ''region'', ''platform'', ''skuName'', ''resourceId'']
        \<subseteq> set spend_based_supported
   \<and> validate_group_by_fields
        [''service'', ''region'', ''platform'', ''skuName'', ''resourceId''] ''SPEND_BASED''
      = [''service'', ''region'', ''platform'', ''skuName'']"
proof -
  have h: "length [''service'', ''region'', ''platform'', ''skuName'', ''resourceId''] = 5
     \<and> set [''service'', ''region'', ''platform'', ''skuName'', ''resourceId'']
          \<subseteq> set spend_based_supported"
    by (simp add: spend_based_supported_def)
  from C8_validate_group_by_fields
    [of "[''service'', ''region'', ''platform'', ''skuName'', ''resourceId'']" "''SPEND_BASED''"]
  have "validate_group_by_fields
          [''service'', ''region'', ''platform'', ''skuName'', ''resourceId''] ''SPEND_BASED''
        = take 4 [''service'', ''region'', ''platform'', ''skuName'', ''resourceId'']"
    using h by blast
  then show ?thesis using h by simp
qed

subsection \<open>DateNormalizer: relative periods\<close>

lemma divmod12:
  fixes y k :: int
  assumes "0 \<le> k" "k < 12"
  shows "(12 * y + k) div 12 = y" "(12 * y + k) mod 12 = k"
  using assms by simp_all

lemma months_earlier_cases:
  assumes "1 \<le> m" "m \<le> 12" "0 \<le> n" "n \<le> 12"
  shows "months_earlier n (y, m) = (if m - n \<le> 0 then (y - 1, m - n + 12) else (y, m - n))"
proof (cases "m - n \<le> 0")
  case True
  have t: "12 * y + (m - 1) - n = 12 * (y - 1) + (m - n + 11)" by simp
  have r: "0 \<le> m - n + 11" "m - n + 11 < 12" using True assms by auto
  have "months_earlier n (y, m)
        = ((12 * (y - 1) + (m - n + 11)) div 12, (12 * (y - 1) + (m - n + 11)) mod 12 + 1)"
    unfolding months_earlier_def Let_def fst_conv snd_conv t ..
  also have "\<dots> = (y - 1, m - n + 11 + 1)"
    unfolding divmod12[OF r] ..
  finally show ?thesis using True by simp
next
  case False
  have t: "12 * y + (m - 1) - n = 12 * y + (m - n - 1)" by simp
  have r: "0 \<le> m - n - 1" "m - n - 1 < 12" using False assms by auto
  have "months_earlier n (y, m) = ((12 * y + (m - n - 1)) div 12, (12 * y + (m - n - 1)) mod 12 + 1)"
    unfolding months_earlier_def Let_def fst_conv snd_conv t ..
  also have "\<dots> = (y, m - n - 1 + 1)"
    unfolding divmod12[OF r] ..
  finally show ?thesis using False by simp
qed

lemma valid_datetime_fields:
  assumes "valid_datetime dt"
  shows "1 \<le> year dt" "year dt \<le> 9999" "1 \<le> month dt" "month dt \<le> 12"
    "0 \<le> hour dt" "hour dt \<le> 23" "0 \<le> minute dt" "minute dt \<le> 59"
    "0 \<le> second dt" "second dt \<le> 59" "0 \<le> microsecond dt" "microsecond dt \<le> 999999"
  using assms unfolding valid_datetime_def new_datetime_def
  by (auto split: if_splits)

lemma one_le_days_in_month: "1 \<le> days_in_month y m"
  by (simp add: days_in_month_def)

lemma replace_date_first:
  assumes "valid_datetime dt" "1 \<le> y" "y \<le> 9999" "1 \<le> m" "m \<le> 12"
  shows "replace_date dt y m 1 = Inr (dt\<lparr>year := y, month := m, day := 1\<rparr>)"
  using valid_datetime_fields[OF assms(1)] assms(2-) one_le_days_in_month[of y m]
  by (simp add: replace_date_def new_datetime_def)

lemma strftime_ymd_first:
  "strftime_ymd (dt\<lparr>year := y, month := m, day := 1\<rparr>) = first_day_string (y, m)"
  by (simp add: strftime_ymd_def first_day_string_def pad2_def digit_char_def)

lemma strftime_ymd_day1:
  "strftime_ymd (dt\<lparr>day := 1\<rparr>) = first_day_string (year dt, month dt)"
  by (simp add: strftime_ymd_def first_day_string_def pad2_def digit_char_def)

lemma last_month_range:
  assumes v: "valid_datetime today" and y: "1 \<le> fst (months_earlier 1 (year today, month today))"
  shows "calculate_first_day_date_range today ''last_month''
         = Inr (first_day_string (months_earlier 1 (year today, month today)),
                first_day_string (year today, month today))"
proof -
  note f = valid_datetime_fields[OF v]
  have cms: "replace_date today (year today) (month today) 1
             = Inr (today\<lparr>year := year today, month := month today, day := 1\<rparr>)"
    using replace_date_first[OF v f(1-4)] .
  let ?cms = "today\<lparr>year := year today, month := month today, day := 1\<rparr>"
  have vc: "valid_datetime ?cms"
    using f one_le_days_in_month[of "year today" "month today"]
    by (simp add: valid_datetime_def new_datetime_def)
  have me: "months_earlier 1 (year today, month today)
            = (if month today - 1 \<le> 0 then (year today - 1, month today - 1 + 12)
               else (year today, month today - 1))"
    using months_earlier_cases[of "month today" 1 "year today"] f by simp
  show ?thesis
  proof (cases "month today = 1")
    case True
    then have me1: "months_earlier 1 (year today, month today) = (year today - 1, 12)"
      using me by simp
    then have "1 \<le> year today - 1" using y by simp
    then have "replace_date ?cms (year today - 1) 12 1 = Inr (?cms\<lparr>year := year today - 1, month := 12, day := 1\<rparr>)"
      using replace_date_first[OF vc] f by simp
    then show ?thesis using True cms me1
      by (simp add: calculate_first_day_date_range_def strftime_ymd_first strftime_ymd_day1)
  next
    case False
    then have me1: "months_earlier 1 (year today, month today) = (year today, month today - 1)"
      using me f by simp
    have "replace_date ?cms (year today) (month today - 1) 1
          = Inr (?cms\<lparr>year := year today, month := month today - 1, day := 1\<rparr>)"
      using replace_date_first[OF vc, of "year today" "month today - 1"] f False by simp
    then show ?thesis using False cms me1
      by (simp add: calculate_first_day_date_range_def strftime_ymd_first strftime_ymd_day1)
  qed
qed


lemma last_3_months_range:
  assumes v: "valid_datetime today" and y: "1 \<le> fst (months_earlier 3 (year today, month today))"
  shows "calculate_first_day_date_range today ''last_3_months''
         = Inr (first_day_string (months_earlier 3 (year today, month today)),
                first_day_string (year today, month today))"
proof -
  note f = valid_datetime_fields[OF v]
  have cms: "replace_date today (year today) (month today) 1
             = Inr (today\<lparr>year := year today, month := month today, day := 1\<rparr>)"
    using replace_date_first[OF v f(1-4)] .
  have me: "months_earlier 3 (year today, month today)
            = (if month today - 3 \<le> 0 then (year today - 1, month today - 3 + 12)
               else (year today, month today - 3))"
    using months_earlier_cases[of "month today" 3 "year today"] f by simp
  have nd: "1 \<le> y1 \<Longrightarrow> y1 \<le> 9999 \<Longrightarrow> 1 \<le> m1 \<Longrightarrow> m1 \<le> 12 \<Longrightarrow>
        new_datetime y1 m1 1 0 0 0 0 None
        = Inr \<lparr>year = y1, month = m1, day = 1, hour = 0, minute = 0, second = 0,
                microsecond = 0, tzinfo = None\<rparr>" for y1 m1
    using one_le_days_in_month[of y1 m1] by (simp add: new_datetime_def)
  have fmt: "strftime_ymd \<lparr>year = y1, month = m1, day = 1, hour = 0, minute = 0, second = 0,
                microsecond = 0, tzinfo = None\<rparr> = first_day_string (y1, m1)" for y1 m1
    by (simp add: strftime_ymd_def first_day_string_def pad2_def digit_char_def)
  show ?thesis
  proof (cases "month today - 3 \<le> 0")
    case True
    then have me1: "months_earlier 3 (year today, month today) = (year today - 1, month today - 3 + 12)"
      using me by simp
    then have "1 \<le> year today - 1" using y by simp
    then have "new_datetime (year today - 1) (month today - 3 + 12) 1 0 0 0 0 None
          = Inr \<lparr>year = year today - 1, month = month today - 3 + 12, day = 1, hour = 0,
                  minute = 0, second = 0, microsecond = 0, tzinfo = None\<rparr>"
      using nd[of "year today - 1" "month today - 3 + 12"] f True by simp
    then show ?thesis using True cms me1
      by (simp add: calculate_first_day_date_range_def Let_def fmt strftime_ymd_day1)
  next
    case False
    then have me1: "months_earlier 3 (year today, month today) = (year today, month today - 3)"
      using me by simp
    have "new_datetime (year today) (month today - 3) 1 0 0 0 0 None
          = Inr \<lparr>year = year today, month = month today - 3, day = 1, hour = 0,
                  minute = 0, second = 0, microsecond = 0, tzinfo = None\<rparr>"
      using nd[of "year today" "month today - 3"] f False by simp
    then show ?thesis using False cms me1
      by (simp add: calculate_first_day_date_range_def Let_def fmt strftime_ymd_day1)
  qed
qed

lemma valid_datetime_with_date:
  assumes "valid_datetime today" "1 \<le> y" "y \<le> 9999" "1 \<le> m" "m \<le> 12" "1 \<le> d"
    "d \<le> days_in_month y m"
  shows "valid_datetime (today\<lparr>year := y, month := m, day := d\<rparr>)"
  using valid_datetime_fields[OF assms(1)] assms(2-)
  by (simp add: valid_datetime_def new_datetime_def)

text \<open>
  Claim C7. For a valid clock reading \<open>today\<close>, \<open>calculate_first_day_date_range\<close> returns
  two first-of-month date strings: the end is the first day of the current month and the
  start is the first day of the month 1 (last_month) or 3 (last_3_months) calendar months
  earlier, counted across the year boundary, provided that month is not before year 1.
  On 2024-02-15 last_3_months gives (2023-11-01, 2024-02-01), and on 2024-01-10 it gives
  (2023-10-01, 2024-01-01), at any time of day.
\<close>

theorem C7_resolve_period:
  "(valid_datetime today \<and> 1 \<le> fst (months_earlier 1 (year today, month today))
      \<longrightarrow> calculate_first_day_date_range today ''last_month''
           = Inr (first_day_string (months_earlier 1 (year today, month today)),
                  first_day_string (year today, month today)))
   \<and> (valid_datetime today \<and> 1 \<le> fst (months_earlier 3 (year today, month today))
      \<longrightarrow> calculate_first_day_date_range today ''last_3_months''
           = Inr (first_day_string (months_earlier 3 (year today, month today)),
                  first_day_string (year today, month today)))
   \<and> (valid_datetime today
      \<longrightarrow> calculate_first_day_date_range (today\<lparr>year := 2024, month := 2, day := 15\<rparr>)
             ''last_3_months'' = Inr (''2023-11-01'', ''2024-02-01''))
   \<and> (valid_datetime today
      \<longrightarrow> calculate_first_day_date_range (today\<lparr>year := 2024, month := 1, day := 10\<rparr>)
             ''last_3_months'' = Inr (''2023-10-01'', ''2024-01-01''))"
proof (intro conjI impI)
  assume "valid_datetime today \<and> 1 \<le> fst (months_earlier 1 (year today, month today))"
  then show "calculate_first_day_date_range today ''last_month''
           = Inr (first_day_string (months_earlier 1 (year today, month today)),
                  first_day_string (year today, month today))"
    using last_month_range by blast
next
  assume "valid_datetime today \<and> 1 \<le> fst (months_earlier 3 (year today, month today))"
  then show "calculate_first_day_date_range today ''last_3_months''
           = Inr (first_day_string (months_earlier 3 (year today, month today)),
                  first_day_string (year today, month today))"
    using last_3_months_range by blast
next
  assume v: "valid_datetime today"
  let ?t = "today\<lparr>year := 2024, month := 2, day := 15\<rparr>"
  have vt: "valid_datetime ?t"
    by (rule valid_datetime_with_date[OF v]) (simp_all add: days_in_month_def is_leap_def)
  have me: "months_earlier 3 (year ?t, month ?t) = (2023, 11)"
    by (simp add: months_earlier_def)
  have "calculate_first_day_date_range ?t ''last_3_months''
        = Inr (first_day_string (2023, 11), first_day_string (2024, 2))"
    using last_3_months_range[OF vt] me by simp
  then show "calculate_first_day_date_range ?t ''last_3_months''
             = Inr (''2023-11-01'', ''2024-02-01'')"
    by (simp add: first_day_string_def pad2_def pad4_def digit_char_def)
next
  assume v: "valid_datetime today"
  let ?t = "today\<lparr>year := 2024, month := 1, day := 10\<rparr>"
  have vt: "valid_datetime ?t"
    by (rule valid_datetime_with_date[OF v]) (simp_all add: days_in_month_def is_leap_def)
  have me: "months_earlier 3 (year ?t, month ?t) = (2023, 10)"
    by (simp add: months_earlier_def)
  have "calculate_first_day_date_range ?t ''last_3_months''
        = Inr (first_day_string (2023, 10), first_day_string (2024, 1))"
    using last_3_months_range[OF vt] me by simp
  then show "calculate_first_day_date_range ?t ''last_3_months''
             = Inr (''2023-10-01'', ''2024-01-01'')"
    by (simp add: first_day_string_def pad2_def pad4_def digit_char_def)
qed

lemma valid_datetime_example:
  "valid_datetime \<lparr>year = 2024, month = 1, day = 10, hour = 9, minute = 30, second = 0,
                    microsecond = 0, tzinfo = None\<rparr>"
  by (simp add: valid_datetime_def new_datetime_def days_in_month_def)

theorem C7_resolve_period_witness:
  "valid_datetime \<lparr>year = 2024, month = 1, day = 10, hour = 9, minute = 30, second = 0,
                    microsecond = 0, tzinfo = None\<rparr>
   \<and> months_earlier 1 (2024, 1) = (2023, 12)
   \<and> months_earlier 3 (2024, 1) = (2023, 10)
   \<and> calculate_first_day_date_range
        \<lparr>year = 2024, month = 1, day = 10, hour = 9, minute = 30, second = 0,
         microsecond = 0, tzinfo = None\<rparr> ''last_month'' = Inr (''2023-12-01'', ''2024-01-01'')
   \<and> calculate_first_day_date_range
        \<lparr>year = 2024, month = 1, day = 10, hour = 9, minute = 30, second = 0,
         microsecond = 0, tzinfo = None\<rparr> ''last_3_months'' = Inr (''2023-10-01'', ''2024-01-01'')"
proof -
  let ?t = "\<lparr>year = 2024, month = 1, day = 10, hour = 9, minute = 30, second = 0,
             microsecond = 0, tzinfo = None\<rparr>"
  have me1: "months_earlier 1 (2024, 1) = (2023, 12)" by (simp add: months_earlier_def)
  have me3: "months_earlier 3 (2024, 1) = (2023, 10)" by (simp add: months_earlier_def)
  have s: "first_day_string (2023, 12) = ''2023-12-01''" "first_day_string (2023, 10) = ''2023-10-01''"
    "first_day_string (2024, 1) = ''2024-01-01''"
    by (simp_all add: first_day_string_def pad2_def pad4_def digit_char_def)
  from C7_resolve_period[of ?t] valid_datetime_example me1 me3 s
  show ?thesis by simp
qed

subsection \<open>PaginationDriver\<close>

lemma records_upto_0: "records_upto pg 0 = []"
  by (simp add: records_upto_def)

lemma records_upto_Suc: "records_upto pg (Suc n) = records_upto pg n @ items (pg (Suc n))"
  by (simp add: records_upto_def)

lemma while_loop_raise:
  assumes "fetch (page_count st + 1) = Inl e"
  shows "while_loop fetch max_records st = (Some e, st\<lparr>page_count := page_count st + 1\<rparr>)"
  using assms by (simp add: while_loop.simps[of fetch max_records st])

lemma while_loop_limit:
  assumes "fetch (page_count st + 1) = Inr data" "items data \<noteq> []"
    "limit_hit max_records (total_records st + length (items data))"
  shows "while_loop fetch max_records st
         = (None, \<lparr>all_items = py_slice_to (all_items st @ items data) (the max_records),
                   page_count = page_count st + 1,
                   total_records = total_records st + length (items data)\<rparr>)"
  using assms by (simp add: while_loop.simps[of fetch max_records st])

lemma while_loop_last:
  assumes "fetch (page_count st + 1) = Inr data"
    "\<not> (items data \<noteq> [] \<and> limit_hit max_records (total_records st + length (items data)))"
    "no_more_pages data \<or> page_count st + 1 \<ge> 1000"
  shows "while_loop fetch max_records st
         = (None, \<lparr>all_items = all_items st @ items data,
                   page_count = page_count st + 1,
                   total_records = total_records st + length (items data)\<rparr>)"
  using assms by (auto simp: while_loop.simps[of fetch max_records st])

lemma while_loop_next:
  assumes "fetch (page_count st + 1) = Inr data"
    "\<not> (items data \<noteq> [] \<and> limit_hit max_records (total_records st + length (items data)))"
    "\<not> no_more_pages data" "page_count st + 1 < 1000"
  shows "while_loop fetch max_records st
         = while_loop fetch max_records
             \<lparr>all_items = all_items st @ items data,
              page_count = page_count st + 1,
              total_records = total_records st + length (items data)\<rparr>"
  using assms by (auto simp: while_loop.simps[of fetch max_records st])

lemma while_loop_page_count:
  "page_count st < 1000 \<Longrightarrow>
     page_count st < page_count (snd (while_loop fetch max_records st))
     \<and> page_count (snd (while_loop fetch max_records st)) \<le> 1000"
proof (induction fetch max_records st rule: while_loop.induct)
  case (1 fetch max_records st)
  show ?case
  proof (cases "fetch (page_count st + 1)")
    case (Inl e)
    then show ?thesis using "1.prems" by (simp add: while_loop_raise)
  next
    case (Inr data)
    consider
      (limit) "items data \<noteq> []" "limit_hit max_records (total_records st + length (items data))"
    | (last) "\<not> (items data \<noteq> [] \<and> limit_hit max_records (total_records st + length (items data)))"
        "no_more_pages data \<or> page_count st + 1 \<ge> 1000"
    | (continue) "\<not> (items data \<noteq> [] \<and> limit_hit max_records (total_records st + length (items data)))"
        "\<not> no_more_pages data" "page_count st + 1 < 1000"
      by fastforce
    then show ?thesis
    proof cases
      case limit
      then show ?thesis using "1.prems" by (simp add: while_loop_limit[where fetch=fetch and st=st, OF Inr])
    next
      case last
      then show ?thesis using "1.prems" by (simp add: while_loop_last[where fetch=fetch and st=st, OF Inr])
    next
      case continue
      let ?st = "\<lparr>all_items = all_items st @ items data, page_count = page_count st + 1,
                  total_records = total_records st + length (items data)\<rparr>"
      have "page_count ?st < page_count (snd (while_loop fetch max_records ?st))
            \<and> page_count (snd (while_loop fetch max_records ?st)) \<le> 1000"
        using "1.IH"[OF Inr] continue by simp
      then show ?thesis
        by (simp add: while_loop_next[where fetch=fetch and st=st, OF Inr continue])
    qed
  qed
qed

lemma pages_requested_bounds:
  "1 \<le> pages_requested fetch max_records \<and> pages_requested fetch max_records \<le> 1000"
  using while_loop_page_count[of "\<lparr>all_items = [], page_count = 0, total_records = 0\<rparr>"
      fetch max_records]
  by (simp add: pages_requested_def)

lemma limit_not_reached_length:
  assumes "positive_limit max_records"
    and "\<forall>k. 1 \<le> k \<and> k \<le> c \<longrightarrow> \<not> stops_at pg max_records k"
    and "max_records = Some m"
  shows "int (length (records_upto pg c)) < m"
proof (cases c)
  case 0
  then show ?thesis using assms(1,3) by (simp add: records_upto_0 positive_limit_def)
next
  case (Suc c')
  then have "\<not> stops_at pg max_records c" using assms(2) by simp
  then show ?thesis using assms(3) by (simp add: stops_at_def limit_reached_def)
qed

lemma while_loop_pages:
  assumes "positive_limit max_records"
    and "all_items st = records_upto pg (page_count st)"
    and "total_records st = length (all_items st)"
    and "page_count st < 1000"
    and "\<forall>k. 1 \<le> k \<and> k \<le> page_count st \<longrightarrow> \<not> stops_at pg max_records k"
  shows "\<exists>n. page_count st < n \<and> stops_at pg max_records n
            \<and> (\<forall>k. 1 \<le> k \<and> k < n \<longrightarrow> \<not> stops_at pg max_records k)
            \<and> while_loop (\<lambda>k. Inr (pg k)) max_records st
                = (None, \<lparr>all_items = truncated max_records (records_upto pg n),
                          page_count = n,
                          total_records = length (records_upto pg n)\<rparr>)"
  using assms
proof (induction "\<lambda>k. (Inr (pg k) :: exn + page)" max_records st rule: while_loop.induct)
  case (1 max_records st)
  let ?c = "page_count st"
  let ?data = "pg (?c + 1)"
  let ?fetch = "\<lambda>k. (Inr (pg k) :: exn + page)"
  have f: "?fetch (?c + 1) = Inr ?data" by simp
  have R: "records_upto pg (?c + 1) = all_items st @ items ?data"
    using "1.prems"(2) by (simp add: records_upto_Suc)
  have len: "total_records st + length (items ?data) = length (records_upto pg (?c + 1))"
    using "1.prems"(3) R by simp
  have below: "\<And>m. max_records = Some m \<Longrightarrow> int (length (records_upto pg ?c)) < m"
    using limit_not_reached_length[OF "1.prems"(1) "1.prems"(5)] by blast
  have before: "\<forall>k. 1 \<le> k \<and> k < ?c + 1 \<longrightarrow> \<not> stops_at pg max_records k"
    using "1.prems"(5) by simp
  have hit_iff: "(items ?data \<noteq> [] \<and> limit_hit max_records (total_records st + length (items ?data)))
                 \<longleftrightarrow> limit_reached pg max_records (?c + 1)"
  proof (cases max_records)
    case None
    then show ?thesis by (simp add: limit_hit_def limit_reached_def)
  next
    case (Some m)
    have pos: "0 < m" using "1.prems"(1) Some by (simp add: positive_limit_def)
    show ?thesis
    proof (cases "items ?data = []")
      case True
      then have "records_upto pg (?c + 1) = records_upto pg ?c"
        using R "1.prems"(2) by simp
      then show ?thesis using True below[OF Some] Some by (simp add: limit_reached_def)
    next
      case False
      then show ?thesis using Some pos len by (simp add: limit_hit_def limit_reached_def)
    qed
  qed
  consider
    (limit) "items ?data \<noteq> []" "limit_hit max_records (total_records st + length (items ?data))"
  | (last) "\<not> (items ?data \<noteq> [] \<and> limit_hit max_records (total_records st + length (items ?data)))"
      "no_more_pages ?data \<or> ?c + 1 \<ge> 1000"
  | (continue) "\<not> (items ?data \<noteq> [] \<and> limit_hit max_records (total_records st + length (items ?data)))"
      "\<not> no_more_pages ?data" "?c + 1 < 1000"
    by fastforce
  then show ?case
  proof cases
    case limit
    then obtain m where m: "max_records = Some m" "m \<noteq> 0" "m \<le> int (length (records_upto pg (?c + 1)))"
      using len by (auto simp: limit_hit_def split: option.splits)
    have pos: "0 < m" using "1.prems"(1) m by (simp add: positive_limit_def)
    have stop: "stops_at pg max_records (?c + 1)"
      using m by (simp add: stops_at_def limit_reached_def)
    have "while_loop ?fetch max_records st
          = (None, \<lparr>all_items = truncated max_records (records_upto pg (?c + 1)),
                    page_count = ?c + 1,
                    total_records = length (records_upto pg (?c + 1))\<rparr>)"
      using while_loop_limit[where fetch="?fetch" and st=st, OF f limit] m pos R len
      by (simp add: truncated_def py_slice_to_def)
    then show ?thesis using stop before by (intro exI[of _ "?c + 1"]) simp
  next
    case last
    have stop: "stops_at pg max_records (?c + 1)"
      using last(2) by (auto simp: stops_at_def)
    have nl: "\<not> limit_reached pg max_records (?c + 1)" using last(1) hit_iff by blast
    have tr: "truncated max_records (records_upto pg (?c + 1)) = records_upto pg (?c + 1)"
      using nl by (auto simp: truncated_def limit_reached_def split: option.splits)
    have "while_loop ?fetch max_records st
          = (None, \<lparr>all_items = truncated max_records (records_upto pg (?c + 1)),
                    page_count = ?c + 1,
                    total_records = length (records_upto pg (?c + 1))\<rparr>)"
      using while_loop_last[where fetch="?fetch" and st=st, OF f last] R len tr by simp
    then show ?thesis using stop before by (intro exI[of _ "?c + 1"]) simp
  next
    case continue
    let ?st = "\<lparr>all_items = all_items st @ items ?data, page_count = ?c + 1,
                total_records = total_records st + length (items ?data)\<rparr>"
    have nl: "\<not> limit_reached pg max_records (?c + 1)" using continue(1) hit_iff by blast
    have nostop: "\<not> stops_at pg max_records (?c + 1)"
      using nl continue by (simp add: stops_at_def)
    have upto: "\<forall>k. 1 \<le> k \<and> k \<le> page_count ?st \<longrightarrow> \<not> stops_at pg max_records k"
    proof (intro allI impI)
      fix k assume "1 \<le> k \<and> k \<le> page_count ?st"
      then have "k \<le> ?c \<or> k = ?c + 1" by auto
      then show "\<not> stops_at pg max_records k" using "1.prems"(5) nostop \<open>1 \<le> k \<and> k \<le> page_count ?st\<close>
        by auto
    qed
    have "\<exists>n. page_count ?st < n \<and> stops_at pg max_records n
            \<and> (\<forall>k. 1 \<le> k \<and> k < n \<longrightarrow> \<not> stops_at pg max_records k)
            \<and> while_loop ?fetch max_records ?st
                = (None, \<lparr>all_items = truncated max_records (records_upto pg n),
                          page_count = n,
                          total_records = length (records_upto pg n)\<rparr>)"
    proof (rule "1.hyps"[OF f])
      show "\<not> (items ?data \<noteq> [] \<and> limit_hit max_records (total_records st + length (items ?data)))"
        using continue(1) .
      show "\<not> no_more_pages ?data" using continue(2) .
      show "\<not> 1000 \<le> ?c + 1" using continue(3) by simp
      show "positive_limit max_records" using "1.prems"(1) .
      show "all_items ?st = records_upto pg (page_count ?st)" using R by simp
      show "total_records ?st = length (all_items ?st)" using "1.prems"(3) by simp
      show "page_count ?st < 1000" using continue(3) by simp
      show "\<forall>k. 1 \<le> k \<and> k \<le> page_count ?st \<longrightarrow> \<not> stops_at pg max_records k" using upto .
    qed
    then obtain n where n: "page_count ?st < n" "stops_at pg max_records n"
      "\<forall>k. 1 \<le> k \<and> k < n \<longrightarrow> \<not> stops_at pg max_records k"
      "while_loop ?fetch max_records ?st
                = (None, \<lparr>all_items = truncated max_records (records_upto pg n),
                          page_count = n,
                          total_records = length (records_upto pg n)\<rparr>)"
      by blast
    have "while_loop ?fetch max_records st = while_loop ?fetch max_records ?st"
      using while_loop_next[where fetch="?fetch" and st=st, OF f continue] .
    then show ?thesis using n by (intro exI[of _ n]) simp
  qed
qed

lemma pagination_summary:
  assumes "positive_limit max_records"
  shows "stops_at pg max_records (pages_requested (\<lambda>k. Inr (pg k)) max_records)"
    and "\<forall>k. 1 \<le> k \<and> k < pages_requested (\<lambda>k. Inr (pg k)) max_records
              \<longrightarrow> \<not> stops_at pg max_records k"
    and "paginate (\<lambda>k. Inr (pg k)) max_records
         = Inr \<lparr>items = truncated max_records
                          (records_upto pg (pages_requested (\<lambda>k. Inr (pg k)) max_records)),
                opc_next_page = None\<rparr>"
proof -
  let ?st = "\<lparr>all_items = [], page_count = 0, total_records = 0\<rparr>"
  have "\<exists>n. page_count ?st < n \<and> stops_at pg max_records n
            \<and> (\<forall>k. 1 \<le> k \<and> k < n \<longrightarrow> \<not> stops_at pg max_records k)
            \<and> while_loop (\<lambda>k. Inr (pg k)) max_records ?st
                = (None, \<lparr>all_items = truncated max_records (records_upto pg n),
                          page_count = n,
                          total_records = length (records_upto pg n)\<rparr>)"
    by (rule while_loop_pages[OF assms]) (simp_all add: records_upto_0)
  then obtain n where n: "stops_at pg max_records n"
      "\<forall>k. 1 \<le> k \<and> k < n \<longrightarrow> \<not> stops_at pg max_records k"
      "while_loop (\<lambda>k. Inr (pg k)) max_records ?st
                = (None, \<lparr>all_items = truncated max_records (records_upto pg n),
                          page_count = n,
                          total_records = length (records_upto pg n)\<rparr>)"
    by blast
  have pr: "pages_requested (\<lambda>k. Inr (pg k)) max_records = n"
    using n(3) by (simp add: pages_requested_def)
  show "stops_at pg max_records (pages_requested (\<lambda>k. Inr (pg k)) max_records)"
    using n(1) pr by simp
  show "\<forall>k. 1 \<le> k \<and> k < pages_requested (\<lambda>k. Inr (pg k)) max_records
              \<longrightarrow> \<not> stops_at pg max_records k"
    using n(2) pr by simp
  show "paginate (\<lambda>k. Inr (pg k)) max_records
         = Inr \<lparr>items = truncated max_records
                          (records_upto pg (pages_requested (\<lambda>k. Inr (pg k)) max_records)),
                opc_next_page = None\<rparr>"
    using n(3) pr by (simp add: paginate_def)
qed

lemma three_pages_all:
  assumes "length (items p1) = 500" "length (items p2) = 500" "length (items p3) = 200"
    and "\<not> no_more_pages p1" "\<not> no_more_pages p2" "no_more_pages p3"
  shows "paginate (serve [p1, p2, p3]) None
         = Inr \<lparr>items = items p1 @ items p2 @ items p3, opc_next_page = None\<rparr>"
proof -
  let ?f = "serve [p1, p2, p3]"
  let ?s0 = "\<lparr>all_items = [], page_count = 0, total_records = 0\<rparr>"
  let ?s1 = "\<lparr>all_items = items p1, page_count = 1, total_records = 500\<rparr>"
  let ?s2 = "\<lparr>all_items = items p1 @ items p2, page_count = 2, total_records = 1000\<rparr>"
  let ?s3 = "\<lparr>all_items = items p1 @ items p2 @ items p3, page_count = 3, total_records = 1200\<rparr>"
  have "while_loop ?f None ?s0 = while_loop ?f None ?s1"
    using while_loop_next[where fetch="?f" and st="?s0" and data=p1 and max_records=None] assms
    by (simp add: serve_def limit_hit_def numeral_2_eq_2 numeral_3_eq_3)
  also have "\<dots> = while_loop ?f None ?s2"
    using while_loop_next[where fetch="?f" and st="?s1" and data=p2 and max_records=None] assms
    by (simp add: serve_def limit_hit_def numeral_2_eq_2 numeral_3_eq_3)
  also have "\<dots> = (None, ?s3)"
    using while_loop_last[where fetch="?f" and st="?s2" and data=p3 and max_records=None] assms
    by (simp add: serve_def limit_hit_def numeral_2_eq_2 numeral_3_eq_3)
  finally show ?thesis by (simp add: paginate_def)
qed

lemma three_pages_limit:
  assumes "length (items p1) = 500" "length (items p2) = 500" "length (items p3) = 200"
    and "\<not> no_more_pages p1" "\<not> no_more_pages p2" "no_more_pages p3"
  shows "paginate (serve [p1, p2, p3]) (Some 1000)
         = Inr \<lparr>items = items p1 @ items p2, opc_next_page = None\<rparr>"
    and "pages_requested (serve [p1, p2, p3]) (Some 1000) = 2"
proof -
  let ?f = "serve [p1, p2, p3]"
  let ?s0 = "\<lparr>all_items = [], page_count = 0, total_records = 0\<rparr>"
  let ?s1 = "\<lparr>all_items = items p1, page_count = 1, total_records = 500\<rparr>"
  let ?s2 = "\<lparr>all_items = items p1 @ items p2, page_count = 2, total_records = 1000\<rparr>"
  have ne: "items p2 \<noteq> []" using assms(2) by auto
  have "while_loop ?f (Some 1000) ?s0 = while_loop ?f (Some 1000) ?s1"
    using while_loop_next[where fetch="?f" and st="?s0" and data=p1 and max_records="Some 1000"] assms
    by (simp add: serve_def limit_hit_def numeral_2_eq_2 numeral_3_eq_3)
  also have "\<dots> = (None, ?s2)"
    using while_loop_limit[where fetch="?f" and st="?s1" and data=p2 and max_records="Some 1000"] assms ne
    by (simp add: serve_def limit_hit_def py_slice_to_def numeral_2_eq_2 numeral_3_eq_3)
  finally have w: "while_loop ?f (Some 1000) ?s0 = (None, ?s2)" .
  show "paginate (serve [p1, p2, p3]) (Some 1000)
         = Inr \<lparr>items = items p1 @ items p2, opc_next_page = None\<rparr>"
    using w by (simp add: paginate_def)
  show "pages_requested (serve [p1, p2, p3]) (Some 1000) = 2"
    using w by (simp add: pages_requested_def)
qed

lemma two_pages_then_raise:
  assumes "items p1 \<noteq> [] \<or> items p2 \<noteq> []" "\<not> no_more_pages p1" "\<not> no_more_pages p2"
  shows "paginate (serve_then_raise [p1, p2] e) None = Inl UnboundLocalError"
proof -
  let ?f = "serve_then_raise [p1, p2] e"
  let ?s0 = "\<lparr>all_items = [], page_count = 0, total_records = 0\<rparr>"
  let ?s1 = "\<lparr>all_items = items p1, page_count = 1, total_records = length (items p1)\<rparr>"
  let ?s2 = "\<lparr>all_items = items p1 @ items p2, page_count = 2,
              total_records = length (items p1) + length (items p2)\<rparr>"
  have "while_loop ?f None ?s0 = while_loop ?f None ?s1"
    using while_loop_next[where fetch="?f" and st="?s0" and data=p1 and max_records=None] assms
    by (simp add: serve_then_raise_def limit_hit_def numeral_2_eq_2 numeral_3_eq_3)
  also have "\<dots> = while_loop ?f None ?s2"
    using while_loop_next[where fetch="?f" and st="?s1" and data=p2 and max_records=None] assms
    by (simp add: serve_then_raise_def limit_hit_def numeral_2_eq_2 numeral_3_eq_3)
  also have "\<dots> = (Some e, ?s2\<lparr>page_count := 3\<rparr>)"
    using while_loop_raise[where fetch="?f" and st="?s2" and e=e and max_records=None]
    by (simp add: serve_then_raise_def numeral_2_eq_2 numeral_3_eq_3)
  finally show ?thesis using assms(1) by (auto simp: paginate_def)
qed

lemma raise_at_first_page:
  "paginate (serve_then_raise [] e) max_records = Inl e"
  using while_loop_raise[where fetch="serve_then_raise [] e"
      and st="\<lparr>all_items = [], page_count = 0, total_records = 0\<rparr>" and e=e
      and max_records=max_records]
  by (simp add: serve_then_raise_def paginate_def)

lemma sample_page_simps:
  "items (sample_page n s token) = replicate n (sample_item s)"
  "no_more_pages (sample_page n s None)"
  "\<not> no_more_pages (sample_page n s (Some (c # cs)))"
  by (simp_all add: sample_page_def no_more_pages_def)

lemma get_carbon_emissions_valid_dates:
  assumes "parse_and_validate_datetime start_date = Inr s"
    and "parse_and_validate_datetime end_date = Inr e"
  shows "get_carbon_emissions usage_client start_date end_date emission_type calculation_method
           granularity (Some g) None depth False (Some 500) None
         = usage_client \<lparr>req_time_usage_started = s, req_time_usage_ended = e,
                          req_emission_type = emission_type,
                          req_emission_calculation_method = calculation_method,
                          req_granularity = granularity, req_group_by = g, req_filter = None,
                          req_compartment_depth = depth, req_is_aggregate_by_time = False,
                          req_limit = Some 500\<rparr>"
  using assms by (simp add: get_carbon_emissions_def)

text \<open>
  With two dates that normalise, the function is \<open>paginate\<close> over the outcomes of one and
  the same request, sent again at every call.
\<close>

lemma get_full_dataset_paginated_valid_dates:
  assumes "parse_and_validate_datetime start_date = Inr s"
    and "parse_and_validate_datetime end_date = Inr e"
  shows "get_full_dataset_paginated api start_date end_date emission_type calculation_method
           granularity (Some g) depth max_records
         = paginate
             (\<lambda>k. api k \<lparr>req_time_usage_started = s, req_time_usage_ended = e,
                           req_emission_type = emission_type,
                           req_emission_calculation_method = calculation_method,
                           req_granularity = granularity, req_group_by = g,
                           req_filter = None, req_compartment_depth = Some depth,
                           req_is_aggregate_by_time = False, req_limit = Some 500\<rparr>)
             max_records"
  unfolding get_full_dataset_paginated_def Let_def option.case
    get_carbon_emissions_valid_dates[OF assms] ..

lemma parse_jan_feb:
  "parse_and_validate_datetime ''2024-01-01'' = Inr ''2024-01-01T00:00:00Z''"
  "parse_and_validate_datetime ''2024-02-01'' = Inr ''2024-02-01T00:00:00Z''"
  by (simp_all add: parse_and_validate_datetime_def strptime_ymd_def match_month_def match_day_def
      is_digit_def int_of_digits_def digit_val_def new_datetime_def days_in_month_def is_leap_def
      strftime_month_start_def pad2_def pad4_def digit_char_def)

text \<open>
  Claim C1, evaluated on the code. The claim: when a page fetch raises after records were
  accumulated, the partial dataset is returned; when no record was accumulated, the error
  propagates. The second half holds. For the first, a client that returns two pages of
  500 records and raises at the third call makes \<open>get_full_dataset_paginated\<close> raise
  UnboundLocalError: the handler's \<^verbatim>\<open>return CombinedResult(all_items)\<close> reads a local class
  that is bound only after the loop.
\<close>

theorem C1_partial_dataset_raises:
  "get_full_dataset_paginated
     (\<lambda>k req. serve_then_raise
                 [sample_page 500 ''compute'' (Some ''page-2''),
                  sample_page 500 ''storage'' (Some ''page-3'')]
                 (ApiError ''service unavailable'') k)
     ''2024-01-01'' ''2024-02-01'' ''LOCATION_BASED'' ''POWER_BASED'' ''MONTHLY''
     (Some [''service'', ''compartmentName'', ''region'']) 7 None
   = Inl UnboundLocalError
   \<and> get_full_dataset_paginated
       (\<lambda>k req. serve_then_raise [] (ApiError ''service unavailable'') k)
       ''2024-01-01'' ''2024-02-01'' ''LOCATION_BASED'' ''POWER_BASED'' ''MONTHLY''
       (Some [''service'', ''compartmentName'', ''region'']) 7 None
     = Inl (ApiError ''service unavailable'')"
proof -
  have 1: "paginate (serve_then_raise
                 [sample_page 500 ''compute'' (Some ''page-2''),
                  sample_page 500 ''storage'' (Some ''page-3'')]
                 (ApiError ''service unavailable'')) None = Inl UnboundLocalError"
    by (rule two_pages_then_raise) (simp_all add: sample_page_simps)
  have 2: "paginate (serve_then_raise [] (ApiError ''service unavailable'')) None
           = Inl (ApiError ''service unavailable'')"
    by (rule raise_at_first_page)
  show ?thesis
    unfolding get_full_dataset_paginated_def Let_def option.case
      get_carbon_emissions_valid_dates[OF parse_jan_feb]
    using 1 2 by simp
qed

text \<open>
  What the loop does accumulate. For a client that serves page \<open>pg k\<close> at its k-th call,
  whatever it is asked, the dataset returned is the concatenation of the pages requested,
  in arrival order, cut to \<open>max_records\<close> when a positive one is given. A stub that counts
  its calls and hands out pages of 500, 500 and 200 records gives the 1200 records in
  that order, and the first 1000 of them with \<open>max_records = 1000\<close>.
\<close>

lemma pages_by_call_in_arrival_order:
  "(positive_limit max_records \<longrightarrow>
      paginate (\<lambda>k. Inr (pg k)) max_records
        = Inr \<lparr>items = truncated max_records
                         (records_upto pg (pages_requested (\<lambda>k. Inr (pg k)) max_records)),
               opc_next_page = None\<rparr>)
   \<and> (length (items p1) = 500 \<and> length (items p2) = 500 \<and> length (items p3) = 200
        \<and> \<not> no_more_pages p1 \<and> \<not> no_more_pages p2 \<and> no_more_pages p3 \<longrightarrow>
        paginate (serve [p1, p2, p3]) None
          = Inr \<lparr>items = items p1 @ items p2 @ items p3, opc_next_page = None\<rparr>
        \<and> length (items p1 @ items p2 @ items p3) = 1200
        \<and> paginate (serve [p1, p2, p3]) (Some 1000)
          = Inr \<lparr>items = take 1000 (items p1 @ items p2 @ items p3), opc_next_page = None\<rparr>
        \<and> length (take 1000 (items p1 @ items p2 @ items p3)) = 1000)"
proof (intro conjI impI)
  assume "positive_limit max_records"
  then show "paginate (\<lambda>k. Inr (pg k)) max_records
        = Inr \<lparr>items = truncated max_records
                         (records_upto pg (pages_requested (\<lambda>k. Inr (pg k)) max_records)),
               opc_next_page = None\<rparr>"
    by (rule pagination_summary(3))
next
  assume a: "length (items p1) = 500 \<and> length (items p2) = 500 \<and> length (items p3) = 200
        \<and> \<not> no_more_pages p1 \<and> \<not> no_more_pages p2 \<and> no_more_pages p3"
  then show "paginate (serve [p1, p2, p3]) None
          = Inr \<lparr>items = items p1 @ items p2 @ items p3, opc_next_page = None\<rparr>"
    using three_pages_all by blast
  show "length (items p1 @ items p2 @ items p3) = 1200" using a by simp
  have "take 1000 (items p1 @ items p2 @ items p3) = items p1 @ items p2" using a by simp
  then show "paginate (serve [p1, p2, p3]) (Some 1000)
          = Inr \<lparr>items = take 1000 (items p1 @ items p2 @ items p3), opc_next_page = None\<rparr>"
    using three_pages_limit(1) a by simp
  show "length (take 1000 (items p1 @ items p2 @ items p3)) = 1000" using a by simp
qed

lemma call_counting_stub_example:
  "positive_limit None
   \<and> paginate (\<lambda>k. Inr (sample_page 200 ''network'' None)) None
       = Inr \<lparr>items = truncated None
                 (records_upto (\<lambda>k. sample_page 200 ''network'' None)
                    (pages_requested (\<lambda>k. Inr (sample_page 200 ''network'' None)) None)),
              opc_next_page = None\<rparr>
   \<and> length (items (sample_page 500 ''compute'' (Some ''page-2''))) = 500
   \<and> length (items (sample_page 500 ''storage'' (Some ''page-3''))) = 500
   \<and> length (items (sample_page 200 ''network'' None)) = 200
   \<and> \<not> no_more_pages (sample_page 500 ''compute'' (Some ''page-2''))
   \<and> \<not> no_more_pages (sample_page 500 ''storage'' (Some ''page-3''))
   \<and> no_more_pages (sample_page 200 ''network'' None)
   \<and> paginate (serve [sample_page 500 ''compute'' (Some ''page-2''),
                       sample_page 500 ''storage'' (Some ''page-3''),
                       sample_page 200 ''network'' None]) None
       = Inr \<lparr>items = replicate 500 (sample_item ''compute'') @ replicate 500 (sample_item ''storage'')
                       @ replicate 200 (sample_item ''network''),
              opc_next_page = None\<rparr>
   \<and> paginate (serve [sample_page 500 ''compute'' (Some ''page-2''),
                       sample_page 500 ''storage'' (Some ''page-3''),
                       sample_page 200 ''network'' None]) (Some 1000)
       = Inr \<lparr>items = replicate 500 (sample_item ''compute'') @ replicate 500 (sample_item ''storage''),
              opc_next_page = None\<rparr>"
proof -
  have h: "length (items (sample_page 500 ''compute'' (Some ''page-2''))) = 500
     \<and> length (items (sample_page 500 ''storage'' (Some ''page-3''))) = 500
     \<and> length (items (sample_page 200 ''network'' None)) = 200
     \<and> \<not> no_more_pages (sample_page 500 ''compute'' (Some ''page-2''))
     \<and> \<not> no_more_pages (sample_page 500 ''storage'' (Some ''page-3''))
     \<and> no_more_pages (sample_page 200 ''network'' None)"
    by (simp add: sample_page_simps)
  have p: "positive_limit None" by (simp add: positive_limit_def)
  from pages_by_call_in_arrival_order[of None "\<lambda>k. sample_page 200 ''network'' None"
      "sample_page 500 ''compute'' (Some ''page-2'')" "sample_page 500 ''storage'' (Some ''page-3'')"
      "sample_page 200 ''network'' None"] h p
  show ?thesis by (simp add: sample_page_simps)
qed

lemma records_upto_same_page:
  "records_upto (\<lambda>k. p) n = concat (replicate n (items p))"
  by (simp add: records_upto_def map_replicate_const)

lemma same_page_all:
  assumes "\<not> no_more_pages p"
  shows "pages_requested (\<lambda>k. Inr p) None = 1000"
    and "paginate (\<lambda>k. Inr p) None
         = Inr \<lparr>items = concat (replicate 1000 (items p)), opc_next_page = None\<rparr>"
proof -
  have pl: "positive_limit None" by (simp add: positive_limit_def)
  have "stops_at (\<lambda>k. p) None (pages_requested (\<lambda>k. Inr p) None)"
    by (rule pagination_summary(1)[OF pl])
  then have "1000 \<le> pages_requested (\<lambda>k. Inr p) None"
    using assms by (simp add: stops_at_def limit_reached_def)
  moreover have "pages_requested (\<lambda>k. Inr p) None \<le> 1000"
    using pages_requested_bounds[of "\<lambda>k. Inr p" None] by simp
  ultimately show n: "pages_requested (\<lambda>k. Inr p) None = 1000" by simp
  show "paginate (\<lambda>k. Inr p) None
         = Inr \<lparr>items = concat (replicate 1000 (items p)), opc_next_page = None\<rparr>"
    using pagination_summary(3)[OF pl, of "\<lambda>k. p"]
    by (simp add: n truncated_def records_upto_same_page)
qed

lemma same_page_limit:
  assumes "length (items p) = 500" "\<not> no_more_pages p"
  shows "paginate (\<lambda>k. Inr p) (Some 1000)
         = Inr \<lparr>items = items p @ items p, opc_next_page = None\<rparr>"
    and "pages_requested (\<lambda>k. Inr p) (Some 1000) = 2"
proof -
  let ?f = "\<lambda>k::nat. (Inr p :: exn + page)"
  let ?s0 = "\<lparr>all_items = [], page_count = 0, total_records = 0\<rparr>"
  let ?s1 = "\<lparr>all_items = items p, page_count = 1, total_records = 500\<rparr>"
  let ?s2 = "\<lparr>all_items = items p @ items p, page_count = 2, total_records = 1000\<rparr>"
  have ne: "items p \<noteq> []" using assms(1) by auto
  have "while_loop ?f (Some 1000) ?s0 = while_loop ?f (Some 1000) ?s1"
    using while_loop_next[where fetch="?f" and st="?s0" and data=p and max_records="Some 1000"] assms
    by (simp add: limit_hit_def)
  also have "\<dots> = (None, ?s2)"
    using while_loop_limit[where fetch="?f" and st="?s1" and data=p and max_records="Some 1000"] assms ne
    by (simp add: limit_hit_def py_slice_to_def)
  finally have w: "while_loop ?f (Some 1000) ?s0 = (None, ?s2)" .
  show "paginate (\<lambda>k. Inr p) (Some 1000)
         = Inr \<lparr>items = items p @ items p, opc_next_page = None\<rparr>"
    using w by (simp add: paginate_def)
  show "pages_requested (\<lambda>k. Inr p) (Some 1000) = 2"
    using w by (simp add: pages_requested_def)
qed

text \<open>
  Claim C2, evaluated on the code. The claim: the records of successive pages are
  accumulated in arrival order by following the continuation token, so that a service
  with pages of 500, 500 and 200 records gives 1200 records, and the first 1000 of them
  with \<open>max_records = 1000\<close>. The code reads the token of each page and tests it, and
  never sends it: every request of the loop is the first request again. For a service
  that answers by the token it is sent, whose first page carries a token, the loop
  therefore receives the first page at every call, stops only at the cap of 1000 pages,
  and returns 1000 copies of the first page; with \<open>max_records = 1000\<close> and a first page
  of 500 records it returns the first page twice. No record of a later page is in either
  result.
\<close>

theorem C2_continuation_token_not_sent:
  assumes "parse_and_validate_datetime start_date = Inr s"
    and "parse_and_validate_datetime end_date = Inr e"
    and "server None = Inr p"
    and "\<not> no_more_pages p"
  shows "get_full_dataset_paginated (\<lambda>k. token_client server) start_date end_date
           emission_type calculation_method granularity group_by compartment_depth None
         = Inr \<lparr>items = concat (replicate 1000 (items p)), opc_next_page = None\<rparr>
       \<and> (length (items p) = 500 \<longrightarrow>
            get_full_dataset_paginated (\<lambda>k. token_client server) start_date end_date
              emission_type calculation_method granularity group_by compartment_depth (Some 1000)
            = Inr \<lparr>items = items p @ items p, opc_next_page = None\<rparr>)"
  unfolding get_full_dataset_paginated_def Let_def
    get_carbon_emissions_valid_dates[OF assms(1,2)] token_client_def assms(3)
  using same_page_all(2)[OF assms(4)] same_page_limit(1)[OF _ assms(4)] by simp

theorem C2_continuation_token_not_sent_witness:
  "parse_and_validate_datetime ''2024-01-01'' = Inr ''2024-01-01T00:00:00Z''
   \<and> parse_and_validate_datetime ''2024-02-01'' = Inr ''2024-02-01T00:00:00Z''
   \<and> three_page_server None = Inr (sample_page 500 ''compute'' (Some ''page-2''))
   \<and> three_page_server (Some ''page-2'') = Inr (sample_page 500 ''storage'' (Some ''page-3''))
   \<and> three_page_server (Some ''page-3'') = Inr (sample_page 200 ''network'' None)
   \<and> \<not> no_more_pages (sample_page 500 ''compute'' (Some ''page-2''))
   \<and> get_full_dataset_paginated (\<lambda>k. token_client three_page_server)
        ''2024-01-01'' ''2024-02-01'' ''LOCATION_BASED'' ''POWER_BASED'' ''MONTHLY'' None 7 None
      = Inr \<lparr>items = replicate 500000 (sample_item ''compute''), opc_next_page = None\<rparr>
   \<and> get_full_dataset_paginated (\<lambda>k. token_client three_page_server)
        ''2024-01-01'' ''2024-02-01'' ''LOCATION_BASED'' ''POWER_BASED'' ''MONTHLY'' None 7 None
      \<noteq> Inr \<lparr>items = replicate 500 (sample_item ''compute'') @ replicate 500 (sample_item ''storage'')
                      @ replicate 200 (sample_item ''network''),
             opc_next_page = None\<rparr>
   \<and> get_full_dataset_paginated (\<lambda>k. token_client three_page_server)
        ''2024-01-01'' ''2024-02-01'' ''LOCATION_BASED'' ''POWER_BASED'' ''MONTHLY'' None 7
        (Some 1000)
      = Inr \<lparr>items = replicate 1000 (sample_item ''compute''), opc_next_page = None\<rparr>
   \<and> get_full_dataset_paginated (\<lambda>k. token_client three_page_server)
        ''2024-01-01'' ''2024-02-01'' ''LOCATION_BASED'' ''POWER_BASED'' ''MONTHLY'' None 7
        (Some 1000)
      \<noteq> Inr \<lparr>items = replicate 500 (sample_item ''compute'') @ replicate 500 (sample_item ''storage''),
             opc_next_page = None\<rparr>"
proof -
  have sv: "three_page_server None = Inr (sample_page 500 ''compute'' (Some ''page-2''))"
    "three_page_server (Some ''page-2'') = Inr (sample_page 500 ''storage'' (Some ''page-3''))"
    "three_page_server (Some ''page-3'') = Inr (sample_page 200 ''network'' None)"
    by (simp_all add: three_page_server_def)
  have tk: "\<not> no_more_pages (sample_page 500 ''compute'' (Some ''page-2''))"
    by (simp add: sample_page_simps)
  have cc: "concat (replicate n (replicate 500 x)) = replicate (n * 500) x" for n and x :: item
    by (induction n) (simp_all add: replicate_add)
  have ne: "sample_item ''compute'' \<noteq> sample_item ''storage''"
    by (simp add: sample_item_def)
  have d1: "replicate 500000 (sample_item ''compute'')
        \<noteq> replicate 500 (sample_item ''compute'') @ replicate 500 (sample_item ''storage'')
            @ replicate 200 (sample_item ''network'')"
  proof
    assume "replicate 500000 (sample_item ''compute'')
        = replicate 500 (sample_item ''compute'') @ replicate 500 (sample_item ''storage'')
            @ replicate 200 (sample_item ''network'')"
    then have "length (replicate 500000 (sample_item ''compute''))
        = length (replicate 500 (sample_item ''compute'') @ replicate 500 (sample_item ''storage'')
            @ replicate 200 (sample_item ''network''))"
      by (rule arg_cong)
    then show False by simp
  qed
  have d2: "replicate 1000 (sample_item ''compute'')
        \<noteq> replicate 500 (sample_item ''compute'') @ replicate 500 (sample_item ''storage'')"
  proof
    assume "replicate 1000 (sample_item ''compute'')
        = replicate 500 (sample_item ''compute'') @ replicate 500 (sample_item ''storage'')"
    then have "replicate 1000 (sample_item ''compute'') ! 500
        = (replicate 500 (sample_item ''compute'') @ replicate 500 (sample_item ''storage'')) ! 500"
      by (rule arg_cong)
    then show False using ne by (simp add: nth_append)
  qed
  from C2_continuation_token_not_sent[where server=three_page_server
      and p="sample_page 500 ''compute'' (Some ''page-2'')"
      and emission_type="''LOCATION_BASED''" and calculation_method="''POWER_BASED''"
      and granularity="''MONTHLY''" and group_by=None and compartment_depth=7,
      OF parse_jan_feb sv(1) tk]
  have r: "get_full_dataset_paginated (\<lambda>k. token_client three_page_server)
        ''2024-01-01'' ''2024-02-01'' ''LOCATION_BASED'' ''POWER_BASED'' ''MONTHLY'' None 7 None
      = Inr \<lparr>items = replicate 500000 (sample_item ''compute''), opc_next_page = None\<rparr>"
    "get_full_dataset_paginated (\<lambda>k. token_client three_page_server)
        ''2024-01-01'' ''2024-02-01'' ''LOCATION_BASED'' ''POWER_BASED'' ''MONTHLY'' None 7
        (Some 1000)
      = Inr \<lparr>items = replicate 1000 (sample_item ''compute''), opc_next_page = None\<rparr>"
    using cc[of 1000 "sample_item ''compute''"]
    by (simp_all add: sample_page_simps replicate_add[symmetric])
  show ?thesis
    unfolding r using parse_jan_feb sv tk d1 d2 by simp
qed

text \<open>
  Claim C5. \<open>while_loop\<close> is a total function: its termination is proved with the measure
  1000 minus the page count. Whatever the client does, at least one and at most 1000
  pages are requested. For a client that does not raise and a \<open>max_records\<close> that is
  absent or positive, the loop stops at the first page at which the token is absent, the
  accumulated count has reached \<open>max_records\<close>, or 1000 pages have been requested, and at
  no earlier page; when it stops on the count, the dataset has exactly \<open>max_records\<close>
  records.
\<close>

theorem C5_pagination_terminates:
  "1 \<le> pages_requested fetch max_records \<and> pages_requested fetch max_records \<le> 1000
   \<and> (positive_limit max_records \<longrightarrow>
        stops_at pg max_records (pages_requested (\<lambda>k. Inr (pg k)) max_records)
        \<and> (\<forall>k. 1 \<le> k \<and> k < pages_requested (\<lambda>k. Inr (pg k)) max_records
                \<longrightarrow> \<not> stops_at pg max_records k)
        \<and> (\<forall>m. max_records = Some m
                \<and> limit_reached pg max_records (pages_requested (\<lambda>k. Inr (pg k)) max_records)
                \<longrightarrow> (\<exists>d. paginate (\<lambda>k. Inr (pg k)) max_records = Inr d
                         \<and> int (length (items d)) = m)))"
proof (intro conjI impI allI)
  show "1 \<le> pages_requested fetch max_records" "pages_requested fetch max_records \<le> 1000"
    using pages_requested_bounds[of fetch max_records] by simp_all
next
  assume p: "positive_limit max_records"
  show "stops_at pg max_records (pages_requested (\<lambda>k. Inr (pg k)) max_records)"
    by (rule pagination_summary(1)[OF p])
  fix k
  show "1 \<le> k \<and> k < pages_requested (\<lambda>k. Inr (pg k)) max_records \<Longrightarrow> \<not> stops_at pg max_records k"
    using pagination_summary(2)[OF p] by blast
next
  fix m
  assume p: "positive_limit max_records"
    and m: "max_records = Some m
            \<and> limit_reached pg max_records (pages_requested (\<lambda>k. Inr (pg k)) max_records)"
  let ?n = "pages_requested (\<lambda>k. Inr (pg k)) max_records"
  have pos: "0 < m" using p m by (simp add: positive_limit_def)
  have le: "m \<le> int (length (records_upto pg ?n))" using m by (auto simp: limit_reached_def)
  have "paginate (\<lambda>k. Inr (pg k)) max_records
        = Inr \<lparr>items = take (nat m) (records_upto pg ?n), opc_next_page = None\<rparr>"
    using pagination_summary(3)[OF p, of pg] m by (simp add: truncated_def)
  moreover have "int (length (take (nat m) (records_upto pg ?n))) = m"
    using pos le by simp
  ultimately show "\<exists>d. paginate (\<lambda>k. Inr (pg k)) max_records = Inr d \<and> int (length (items d)) = m"
    by simp
qed

theorem C5_pagination_terminates_witness:
  "positive_limit (Some 1000)
   \<and> pages_requested (\<lambda>k. Inr (sample_page 500 ''compute'' (Some ''more''))) (Some 1000) = 2
   \<and> limit_reached (\<lambda>k. sample_page 500 ''compute'' (Some ''more'')) (Some 1000) 2
   \<and> (\<exists>d. paginate (\<lambda>k. Inr (sample_page 500 ''compute'' (Some ''more''))) (Some 1000) = Inr d
           \<and> int (length (items d)) = 1000)"
proof -
  let ?pg = "\<lambda>k::nat. sample_page 500 ''compute'' (Some ''more'')"
  let ?n = "pages_requested (\<lambda>k. Inr (?pg k)) (Some 1000)"
  have p: "positive_limit (Some 1000)" by (simp add: positive_limit_def)
  have r1: "records_upto ?pg 1 = replicate 500 (sample_item ''compute'')"
    "records_upto ?pg (Suc 0) = replicate 500 (sample_item ''compute'')"
    by (simp_all add: records_upto_def sample_page_simps)
  have r2: "records_upto ?pg 2 = replicate 500 (sample_item ''compute'') @ replicate 500 (sample_item ''compute'')"
    by (simp add: records_upto_def sample_page_simps numeral_2_eq_2)
  have s1: "\<not> stops_at ?pg (Some 1000) 1"
    by (simp add: stops_at_def limit_reached_def r1 sample_page_simps)
  have s2: "stops_at ?pg (Some 1000) 2"
    by (simp add: stops_at_def limit_reached_def r2)
  have l2: "limit_reached ?pg (Some 1000) 2"
    by (simp add: limit_reached_def r2)
  note c5 = C5_pagination_terminates[of "\<lambda>k. Inr (?pg k)" "Some 1000" ?pg]
  have ge: "1 \<le> ?n" using c5 by blast
  have stop: "stops_at ?pg (Some 1000) ?n" using c5 p by blast
  have least: "\<forall>k. 1 \<le> k \<and> k < ?n \<longrightarrow> \<not> stops_at ?pg (Some 1000) k" using c5 p by blast
  have "?n \<noteq> 1" using stop s1 by auto
  moreover have "\<not> 2 < ?n" using least s2 by auto
  ultimately have n: "?n = 2" using ge by linarith
  have "\<exists>d. paginate (\<lambda>k. Inr (?pg k)) (Some 1000) = Inr d \<and> int (length (items d)) = 1000"
    using c5 p l2 n by auto
  then show ?thesis using p n l2 by simp
qed

subsection \<open>FallbackStrategy and MultiQueryAggregator\<close>

lemma attempts_differ: "primary_attempt \<noteq> alternate_attempt"
  by (simp add: primary_attempt_def alternate_attempt_def)

lemma spec_no_data_not_found: "spec_no_data d \<Longrightarrow> \<not> found_emissions d"
  by (auto simp: spec_no_data_def found_emissions_def list_all_iff list_ex_iff)

lemma fallback_primary_raises:
  assumes "call primary_attempt = Inl e"
  shows "snd (fetch_with_fallback call) = [primary_attempt, alternate_attempt]"
    and "fst (fetch_with_fallback call)
         = (case call alternate_attempt of Inl e' \<Rightarrow> None | Inr d \<Rightarrow> Some d)"
  using assms by (simp_all add: fetch_with_fallback_def split: sum.splits)

lemma fallback_primary_no_data:
  assumes "call primary_attempt = Inr d" "\<not> found_emissions d"
  shows "snd (fetch_with_fallback call) = [primary_attempt, alternate_attempt]"
    and "fst (fetch_with_fallback call)
         = (case call alternate_attempt of Inl e' \<Rightarrow> None | Inr d \<Rightarrow> Some d)"
  using assms by (simp_all add: fetch_with_fallback_def split: sum.splits)

lemma fallback_primary_found:
  assumes "call primary_attempt = Inr d" "found_emissions d"
  shows "fetch_with_fallback call = (Some d, [primary_attempt])"
  using assms by (simp add: fetch_with_fallback_def found_emissions_def)

lemma fallback_log_primary_once:
  "filter (\<lambda>a. a = primary_attempt) (snd (fetch_with_fallback call)) = [primary_attempt]"
  using attempts_differ
  by (auto simp: fetch_with_fallback_def Let_def split: sum.splits option.splits)

lemma combination_try_append:
  "(case combination_try call save has_output all_data of Inl e \<Rightarrow> all_data | Inr a \<Rightarrow> a)
   = all_data @ (case combination_try call save has_output [] of Inl e \<Rightarrow> [] | Inr a \<Rightarrow> a)"
  by (simp add: combination_try_def split: option.splits)

lemma run_combination_eq:
  "run_combination retrieve save has_output (all_data, calls) c
   = (all_data @ contribution retrieve save has_output c,
      calls @ map (\<lambda>a. (fst c, a)) (snd (fetch_with_fallback (retrieve (fst c)))))"
  using combination_try_append[where call="retrieve (fst c)" and save="save (snd c)"
      and has_output=has_output and all_data=all_data]
  by (simp add: run_combination_def contribution_def Let_def)

lemma foldl_run_combination:
  "foldl (run_combination retrieve save has_output) (all_data, calls) cs
   = (all_data @ concat (map (contribution retrieve save has_output) cs),
      calls @ concat (map (\<lambda>c. map (\<lambda>a. (fst c, a))
                                     (snd (fetch_with_fallback (retrieve (fst c))))) cs))"
proof (induction cs arbitrary: all_data calls)
  case Nil
  then show ?case by simp
next
  case (Cons c cs)
  show ?case by (simp add: run_combination_eq Cons.IH)
qed

lemma primary_calls_of_log:
  "filter (\<lambda>x. snd x = primary_attempt)
     (concat (map (\<lambda>c. map (\<lambda>a. (fst c, a)) (snd (fetch_with_fallback (retrieve (fst c))))) cs))
   = map (\<lambda>c. (fst c, primary_attempt)) cs"
proof (induction cs)
  case Nil
  then show ?case by simp
next
  case (Cons c cs)
  have "filter (\<lambda>x. snd x = primary_attempt)
          (map (\<lambda>a. (fst c, a)) (snd (fetch_with_fallback (retrieve (fst c)))))
        = map (\<lambda>a. (fst c, a))
            (filter (\<lambda>a. a = primary_attempt) (snd (fetch_with_fallback (retrieve (fst c)))))"
    by (simp add: filter_map comp_def)
  then show ?case using Cons.IH by (simp add: fallback_log_primary_once)
qed

lemma multi_query_dataset_eq:
  "multi_query_dataset retrieve save output spend
   = (let combined = concat (map (contribution retrieve save (output_requested output))
                              (query_combinations spend))
      in (if combined \<noteq> [] then Some \<lparr>items = combined, opc_next_page = None\<rparr> else None,
          concat (map (\<lambda>c. map (\<lambda>a. (fst c, a)) (snd (fetch_with_fallback (retrieve (fst c)))))
                    (query_combinations spend))))"
  by (simp add: multi_query_dataset_def Let_def foldl_run_combination)

text \<open>
  Claim C3, as amended. When the primary attempt raises, the alternate attempt is still
  made, once. When both attempts raise, no error reaches the caller: the handler of the
  combination catches the failure, the combination adds no record, and the loop goes on.
\<close>

theorem C3_fallback_on_error:
  "(call primary_attempt = Inl e
      \<longrightarrow> snd (fetch_with_fallback call) = [primary_attempt, alternate_attempt])
   \<and> (retrieve (fst c) primary_attempt = Inl e1 \<and> retrieve (fst c) alternate_attempt = Inl e2
      \<longrightarrow> run_combination retrieve save has_output (all_data, calls) c
           = (all_data, calls @ [(fst c, primary_attempt), (fst c, alternate_attempt)]))"
proof (intro conjI impI)
  assume "call primary_attempt = Inl e"
  then show "snd (fetch_with_fallback call) = [primary_attempt, alternate_attempt]"
    by (rule fallback_primary_raises(1))
next
  assume a: "retrieve (fst c) primary_attempt = Inl e1 \<and> retrieve (fst c) alternate_attempt = Inl e2"
  then have l: "snd (fetch_with_fallback (retrieve (fst c))) = [primary_attempt, alternate_attempt]"
    and d: "fst (fetch_with_fallback (retrieve (fst c))) = None"
    using fallback_primary_raises[of "retrieve (fst c)" e1] by simp_all
  have "contribution retrieve save has_output c = []"
    using d by (simp add: contribution_def combination_try_def)
  then show "run_combination retrieve save has_output (all_data, calls) c
           = (all_data, calls @ [(fst c, primary_attempt), (fst c, alternate_attempt)])"
    using l by (simp add: run_combination_eq)
qed

theorem C3_fallback_on_error_witness:
  "raising_call primary_attempt = Inl (ApiError ''LOCATION_BASED'')
   \<and> raising_call alternate_attempt = Inl (ApiError ''MARKET_BASED'')
   \<and> snd (fetch_with_fallback raising_call) = [primary_attempt, alternate_attempt]
   \<and> run_combination (\<lambda>g. raising_call) (\<lambda>s d. None) False ([zero_item], [])
        ([''service''], ''suffix'')
      = ([zero_item], [([''service''], primary_attempt), ([''service''], alternate_attempt)])"
proof -
  have p: "raising_call primary_attempt = Inl (ApiError ''LOCATION_BASED'')"
    and a: "raising_call alternate_attempt = Inl (ApiError ''MARKET_BASED'')"
    by (simp_all add: raising_call_def primary_attempt_def alternate_attempt_def)
  from C3_fallback_on_error[of raising_call "ApiError ''LOCATION_BASED''" "\<lambda>g. raising_call"
      "([''service''], ''suffix'')" "ApiError ''LOCATION_BASED''" "ApiError ''MARKET_BASED''"
      "\<lambda>s d. None" False "[zero_item]" "[]"] p a
  show ?thesis by simp
qed

theorem C3_primary_error_not_propagated:
  "raising_call primary_attempt = Inl (ApiError ''LOCATION_BASED'')
   \<and> raising_call alternate_attempt = Inl (ApiError ''MARKET_BASED'')
   \<and> combination_try raising_call (\<lambda>d. None) False [] = Inl AttributeError
   \<and> combination_try raising_call (\<lambda>d. None) False [] \<noteq> Inl (ApiError ''LOCATION_BASED'')
   \<and> fst (run_combination (\<lambda>g. raising_call) (\<lambda>s d. None) False ([], [])
             ([''service''], ''suffix'')) = []"
  by (simp add: raising_call_def primary_attempt_def alternate_attempt_def combination_try_def
      fetch_with_fallback_def run_combination_def Let_def)

text \<open>
  Claim C4, as amended. When the primary attempt returns no records or only records with
  emission zero, the alternate attempt is made exactly once. When the alternate then
  returns an empty item list, the result is an empty dataset and no error, and nothing
  is added to the combined data. Whatever page the alternate attempt returns is the data
  of the combination: no test of its emission values is made, and all its records, in
  their order, are appended to the combined data, unless writing them to the output file
  raises, in which case that exception leaves the body.
\<close>

theorem C4_fallback_on_no_data:
  "(call primary_attempt = Inr d \<and> spec_no_data d
      \<longrightarrow> snd (fetch_with_fallback call) = [primary_attempt, alternate_attempt]
          \<and> count_list (snd (fetch_with_fallback call)) alternate_attempt = 1)
   \<and> (call primary_attempt = Inr d \<and> spec_no_data d
        \<and> call alternate_attempt = Inr d2 \<and> items d2 = []
      \<longrightarrow> fst (fetch_with_fallback call) = Some d2
          \<and> combination_try call save has_output all_data = Inr all_data)
   \<and> (call primary_attempt = Inr d \<and> spec_no_data d \<and> call alternate_attempt = Inr d2
      \<longrightarrow> fst (fetch_with_fallback call) = Some d2
          \<and> ((has_output \<longrightarrow> save d2 = None)
               \<longrightarrow> combination_try call save has_output all_data = Inr (all_data @ items d2))
          \<and> (items d2 \<noteq> [] \<and> has_output \<and> save d2 = Some e
               \<longrightarrow> combination_try call save has_output all_data = Inl e))"
proof (intro conjI impI)
  assume a: "call primary_attempt = Inr d \<and> spec_no_data d"
  then show l: "snd (fetch_with_fallback call) = [primary_attempt, alternate_attempt]"
    using fallback_primary_no_data(1) spec_no_data_not_found by blast
  show "count_list (snd (fetch_with_fallback call)) alternate_attempt = 1"
    using attempts_differ by (simp add: l)
next
  assume a: "call primary_attempt = Inr d \<and> spec_no_data d
        \<and> call alternate_attempt = Inr d2 \<and> items d2 = []"
  then have nf: "\<not> found_emissions d" using spec_no_data_not_found by blast
  show f: "fst (fetch_with_fallback call) = Some d2"
    using fallback_primary_no_data(2)[of call d] a nf by simp
  show "combination_try call save has_output all_data = Inr all_data"
    using a by (simp add: combination_try_def f)
next
  assume a: "call primary_attempt = Inr d \<and> spec_no_data d \<and> call alternate_attempt = Inr d2"
  then have nf: "\<not> found_emissions d" using spec_no_data_not_found by blast
  show f: "fst (fetch_with_fallback call) = Some d2"
    using fallback_primary_no_data(2)[of call d] a nf by simp
  {
    assume "has_output \<longrightarrow> save d2 = None"
    then show "combination_try call save has_output all_data = Inr (all_data @ items d2)"
      by (simp add: combination_try_def f)
  }
  {
    assume "items d2 \<noteq> [] \<and> has_output \<and> save d2 = Some e"
    then show "combination_try call save has_output all_data = Inl e"
      by (simp add: combination_try_def f)
  }
qed

theorem C4_fallback_on_no_data_witness:
  "empty_call primary_attempt = Inr \<lparr>items = [zero_item], opc_next_page = None\<rparr>
   \<and> spec_no_data \<lparr>items = [zero_item], opc_next_page = None\<rparr>
   \<and> empty_call alternate_attempt = Inr \<lparr>items = [], opc_next_page = None\<rparr>
   \<and> snd (fetch_with_fallback empty_call) = [primary_attempt, alternate_attempt]
   \<and> count_list (snd (fetch_with_fallback empty_call)) alternate_attempt = 1
   \<and> fst (fetch_with_fallback empty_call) = Some \<lparr>items = [], opc_next_page = None\<rparr>
   \<and> combination_try empty_call (\<lambda>d. None) True [] = Inr []
   \<and> zero_pair_call primary_attempt = Inr \<lparr>items = [zero_item], opc_next_page = None\<rparr>
   \<and> zero_pair_call alternate_attempt
       = Inr \<lparr>items = [zero_item\<lparr>service := Some ''storage''\<rparr>, zero_item],
              opc_next_page = None\<rparr>
   \<and> snd (fetch_with_fallback zero_pair_call) = [primary_attempt, alternate_attempt]
   \<and> fst (fetch_with_fallback zero_pair_call)
       = Some \<lparr>items = [zero_item\<lparr>service := Some ''storage''\<rparr>, zero_item],
               opc_next_page = None\<rparr>
   \<and> combination_try zero_pair_call (\<lambda>d. None) True [zero_item]
       = Inr [zero_item, zero_item\<lparr>service := Some ''storage''\<rparr>, zero_item]
   \<and> combination_try zero_pair_call (\<lambda>d. Some (ApiError ''disk full'')) True [zero_item]
       = Inl (ApiError ''disk full'')"
proof -
  have p: "empty_call primary_attempt = Inr \<lparr>items = [zero_item], opc_next_page = None\<rparr>"
    by (simp add: empty_call_def)
  have a: "empty_call alternate_attempt = Inr \<lparr>items = [], opc_next_page = None\<rparr>"
    using attempts_differ by (simp add: empty_call_def)
  have n: "spec_no_data \<lparr>items = [zero_item], opc_next_page = None\<rparr>"
    by (simp add: spec_no_data_def zero_item_def emission_of_def)
  have p2: "zero_pair_call primary_attempt = Inr \<lparr>items = [zero_item], opc_next_page = None\<rparr>"
    by (simp add: zero_pair_call_def)
  have a2: "zero_pair_call alternate_attempt
       = Inr \<lparr>items = [zero_item\<lparr>service := Some ''storage''\<rparr>, zero_item],
              opc_next_page = None\<rparr>"
    using attempts_differ by (simp add: zero_pair_call_def)
  from C4_fallback_on_no_data[of empty_call "\<lparr>items = [zero_item], opc_next_page = None\<rparr>"
      "\<lparr>items = [], opc_next_page = None\<rparr>" "\<lambda>d. None" True "[]"] p a n attempts_differ
  have e1: "snd (fetch_with_fallback empty_call) = [primary_attempt, alternate_attempt]
   \<and> count_list (snd (fetch_with_fallback empty_call)) alternate_attempt = 1
   \<and> fst (fetch_with_fallback empty_call) = Some \<lparr>items = [], opc_next_page = None\<rparr>
   \<and> combination_try empty_call (\<lambda>d. None) True [] = Inr []"
    by simp
  from C4_fallback_on_no_data[of zero_pair_call
      "\<lparr>items = [zero_item], opc_next_page = None\<rparr>"
      "\<lparr>items = [zero_item\<lparr>service := Some ''storage''\<rparr>, zero_item], opc_next_page = None\<rparr>"
      "\<lambda>d. None" True "[zero_item]"] p2 a2 n
  have e2: "snd (fetch_with_fallback zero_pair_call) = [primary_attempt, alternate_attempt]
   \<and> fst (fetch_with_fallback zero_pair_call)
       = Some \<lparr>items = [zero_item\<lparr>service := Some ''storage''\<rparr>, zero_item],
               opc_next_page = None\<rparr>
   \<and> combination_try zero_pair_call (\<lambda>d. None) True [zero_item]
       = Inr [zero_item, zero_item\<lparr>service := Some ''storage''\<rparr>, zero_item]"
    by simp
  from C4_fallback_on_no_data[of zero_pair_call
      "\<lparr>items = [zero_item], opc_next_page = None\<rparr>"
      "\<lparr>items = [zero_item\<lparr>service := Some ''storage''\<rparr>, zero_item], opc_next_page = None\<rparr>"
      "\<lambda>d. Some (ApiError ''disk full'')" True "[zero_item]" "ApiError ''disk full''"] p2 a2 n
  have e3: "combination_try zero_pair_call (\<lambda>d. Some (ApiError ''disk full'')) True [zero_item]
       = Inl (ApiError ''disk full'')"
    by simp
  from p a n p2 a2 e1 e2 e3 attempts_differ show ?thesis by simp
qed

theorem C4_zero_records_of_alternate_kept:
  "zero_call primary_attempt = Inr \<lparr>items = [], opc_next_page = None\<rparr>
   \<and> zero_call alternate_attempt = Inr \<lparr>items = [zero_item], opc_next_page = None\<rparr>
   \<and> spec_no_data \<lparr>items = [], opc_next_page = None\<rparr>
   \<and> spec_no_data \<lparr>items = [zero_item], opc_next_page = None\<rparr>
   \<and> fst (fetch_with_fallback zero_call) = Some \<lparr>items = [zero_item], opc_next_page = None\<rparr>
   \<and> combination_try zero_call (\<lambda>d. None) False [] = Inr [zero_item]"
proof -
  have p: "zero_call primary_attempt = Inr \<lparr>items = [], opc_next_page = None\<rparr>"
    by (simp add: zero_call_def)
  have a: "zero_call alternate_attempt = Inr \<lparr>items = [zero_item], opc_next_page = None\<rparr>"
    using attempts_differ by (simp add: zero_call_def)
  have n: "spec_no_data \<lparr>items = [], opc_next_page = None\<rparr>"
    "spec_no_data \<lparr>items = [zero_item], opc_next_page = None\<rparr>"
    by (simp_all add: spec_no_data_def zero_item_def emission_of_def)
  have f: "fst (fetch_with_fallback zero_call) = Some \<lparr>items = [zero_item], opc_next_page = None\<rparr>"
    by (simp add: fetch_with_fallback_def p a found_emissions_def)
  have "combination_try zero_call (\<lambda>d. None) False [] = Inr [zero_item]"
    by (simp add: combination_try_def f)
  then show ?thesis using p a n f by simp
qed

text \<open>
  Claim C10. Every one of the four combinations is executed, in order, whatever happens
  to the others: the log holds the primary attempt of each. A combination whose body
  raises adds nothing, and the combined dataset is the concatenation of what the
  combinations add, in their order. The run ends without a dataset only when every
  combination failed or returned nothing.
\<close>

theorem C10_failure_isolation:
  "length (query_combinations spend) = 4
   \<and> filter (\<lambda>x. snd x = primary_attempt) (snd (multi_query_dataset retrieve save output spend))
       = map (\<lambda>c. (fst c, primary_attempt)) (query_combinations spend)
   \<and> (combination_try (retrieve (fst c)) (save (snd c)) (output_requested output) [] = Inl e
        \<longrightarrow> contribution retrieve save (output_requested output) c = [])
   \<and> fst (multi_query_dataset retrieve save output spend)
       = (if concat (map (contribution retrieve save (output_requested output))
                       (query_combinations spend)) = [] then None
          else Some \<lparr>items = concat (map (contribution retrieve save (output_requested output))
                                       (query_combinations spend)),
                     opc_next_page = None\<rparr>)
   \<and> (fst (multi_query_dataset retrieve save output spend) = None
        \<longleftrightarrow> (\<forall>c \<in> set (query_combinations spend).
               contribution retrieve save (output_requested output) c = []))"
proof (intro conjI impI)
  show "length (query_combinations spend) = 4"
    by (simp add: query_combinations_def)
  show "filter (\<lambda>x. snd x = primary_attempt) (snd (multi_query_dataset retrieve save output spend))
       = map (\<lambda>c. (fst c, primary_attempt)) (query_combinations spend)"
    by (simp add: multi_query_dataset_eq Let_def primary_calls_of_log)
  show "contribution retrieve save (output_requested output) c = []"
    if "combination_try (retrieve (fst c)) (save (snd c)) (output_requested output) [] = Inl e"
    using that by (simp add: contribution_def)
  show "fst (multi_query_dataset retrieve save output spend)
       = (if concat (map (contribution retrieve save (output_requested output))
                       (query_combinations spend)) = [] then None
          else Some \<lparr>items = concat (map (contribution retrieve save (output_requested output))
                                       (query_combinations spend)),
                     opc_next_page = None\<rparr>)"
    by (simp add: multi_query_dataset_eq Let_def)
  show "fst (multi_query_dataset retrieve save output spend) = None
        \<longleftrightarrow> (\<forall>c \<in> set (query_combinations spend).
               contribution retrieve save (output_requested output) c = [])"
    by (auto simp: multi_query_dataset_eq Let_def)
qed

theorem C10_failure_isolation_witness:
  "combination_try (partly_failing [''service'', ''compartmentName'', ''region''])
     (\<lambda>d. None) (output_requested None) [] = Inl AttributeError
   \<and> contribution partly_failing (\<lambda>s d. None) (output_requested None)
       ([''service'', ''compartmentName'', ''region''], ''power_based_service_compartment_region'') = []
   \<and> (\<exists>d. fst (multi_query_dataset partly_failing (\<lambda>s d. None) None False) = Some d
          \<and> length (items d) = 3)
   \<and> fst (multi_query_dataset (\<lambda>g. raising_call) (\<lambda>s d. None) None False) = None"
proof -
  let ?c = "([''service'', ''compartmentName'', ''region''], ''power_based_service_compartment_region'')"
  have t: "combination_try (partly_failing (fst ?c)) (\<lambda>d. None) (output_requested None) []
           = Inl AttributeError"
    by (simp add: combination_try_def fetch_with_fallback_def partly_failing_def)
  note c10 = C10_failure_isolation[of False partly_failing "\<lambda>s d. None" None ?c AttributeError]
  have c0: "contribution partly_failing (\<lambda>s d. None) (output_requested None) ?c = []"
    using c10 t by simp
  have cs: "concat (map (contribution partly_failing (\<lambda>s d. None) (output_requested None))
                     (query_combinations False))
            = [\<lparr>service = Some ''servicecompartmentNametenantId'', computed_carbon_emission = Some 2,
                 compartment_name = None, compartment_id = None\<rparr>,
               \<lparr>service = Some ''serviceregionsubscriptionId'', computed_carbon_emission = Some 2,
                 compartment_name = None, compartment_id = None\<rparr>,
               \<lparr>service = Some ''servicecompartmentName'', computed_carbon_emission = Some 2,
                 compartment_name = None, compartment_id = None\<rparr>]"
    by (simp add: query_combinations_def contribution_def combination_try_def
        fetch_with_fallback_def partly_failing_def found_emissions_def emission_of_def
        output_requested_def)
  have some: "\<exists>d. fst (multi_query_dataset partly_failing (\<lambda>s d. None) None False) = Some d
          \<and> length (items d) = 3"
    using c10 cs by simp
  have r: "contribution (\<lambda>g. raising_call) (\<lambda>s d. None) (output_requested None) c = []" for c
    by (simp add: contribution_def combination_try_def fetch_with_fallback_def raising_call_def)
  have none: "fst (multi_query_dataset (\<lambda>g. raising_call) (\<lambda>s d. None) None False) = None"
    using C10_failure_isolation[of False "\<lambda>g. raising_call" "\<lambda>s d. None" None ?c AttributeError] r
    by simp
  show ?thesis using t c0 some none by simp
qed

subsection \<open>ReportAggregator\<close>








lemma foldl_add_item_snoc:
  "foldl (add_item g) t (its @ [it]) = add_item g (foldl (add_item g) t its) it"
  by simp















end
